theory Spec2Isabelle
  imports Main "HOL-Library.Word"
begin

unbundle bit_operations_syntax

section \<open>LocalMoodLamp: a shallow embedding of src/main.cpp\<close>

text \<open>
  The firmware keeps six animations in EEPROM, plays the selected one, lets two buttons
  step through the slots and accepts uploads and downloads over the serial line. The
  definitions below follow \<^verbatim>\<open>main.cpp\<close> function by function and keep its names.
  Fixed-width C integers are words: \<^verbatim>\<open>byte\<close>/\<^verbatim>\<open>uint8_t\<close> is \<open>8 word\<close>,
  \<^verbatim>\<open>uint16_t\<close> is \<open>16 word\<close>, \<^verbatim>\<open>uint32_t\<close> is \<open>32 word\<close>.
\<close>

type_synonym u8 = "8 word"
type_synonym u16 = "16 word"
type_synonym u32 = "32 word"

subsection \<open>Constants of main.cpp\<close>

definition SERIAL_PACKET :: nat where "SERIAL_PACKET = 142"
definition FRAME_SIZE :: nat where "FRAME_SIZE = 7"
definition META_SIZE :: nat where "META_SIZE = 2"
definition BTN_TIME :: u32 where "BTN_TIME = 200"

text \<open>
  \<^verbatim>\<open>sizeof(defaults) / sizeof(AnimationDriver::animation)\<close>: the array \<^verbatim>\<open>defaults\<close>
  has six initialisers (lines 82 to 88).
\<close>

definition SLOT_COUNT :: nat where "SLOT_COUNT = 6"

subsection \<open>buttonFSM (lines 377 to 438)\<close>

datatype state = IDLE | TRIGGERED | RELEASE

text \<open>
  The four \<^verbatim>\<open>static\<close> locals of \<^verbatim>\<open>buttonFSM\<close>. They start as \<^verbatim>\<open>IDLE\<close>,
  \<^verbatim>\<open>false\<close>, 0 and 0.
\<close>

record fsm =
  currentState :: state
  changeUP :: bool
  timer :: u32
  outputMode :: u16

definition fsm_init :: fsm where
  "fsm_init = \<lparr>currentState = IDLE, changeUP = False, timer = 0, outputMode = 0\<rparr>"

text \<open>
  What one call of \<^verbatim>\<open>buttonFSM\<close> reads from the hardware. The buttons are wired
  active-low with pull-ups, so \<^verbatim>\<open>!digitalRead(BTN_UP_PIN)\<close> means that the up button is
  pressed: \<open>up\<close> and \<open>down\<close> are True when the button is pressed. \<open>now\<close> is the value
  of \<^verbatim>\<open>millis()\<close>. A call reads each pin at most twice and the clock at most once; the
  pins are taken to hold their value for the length of one call.
\<close>

record poll =
  up :: bool
  down :: bool
  now :: u32

text \<open>
  The committed change of the \<^verbatim>\<open>TRIGGERED\<close> case. \<^verbatim>\<open>outputMode + 1\<close> is computed
  after integer promotion and reduced modulo 6, then stored back into the
  \<^verbatim>\<open>uint16_t\<close>. (On a 16-bit \<^verbatim>\<open>int\<close> the sum would wrap at 65535 before the
  modulo; the two readings agree on every value below 65535.)
\<close>

definition mode_up :: "u16 \<Rightarrow> u16" where
  "mode_up m = of_nat ((unat m + 1) mod SLOT_COUNT)"

definition mode_down :: "u16 \<Rightarrow> u16" where
  "mode_down m = (if m < 1 then of_nat (SLOT_COUNT - 1) else m - 1)"

fun buttonFSM :: "poll \<Rightarrow> fsm \<Rightarrow> fsm" where
  "buttonFSM p s =
    (case currentState s of
       IDLE \<Rightarrow>
         if up p then s\<lparr>currentState := TRIGGERED, changeUP := True, timer := now p\<rparr>
         else if down p then s\<lparr>currentState := TRIGGERED, changeUP := False, timer := now p\<rparr>
         else s
     | TRIGGERED \<Rightarrow>
         if now p - timer s > BTN_TIME then
           (if changeUP s \<and> up p then s\<lparr>outputMode := mode_up (outputMode s)\<rparr>
            else if \<not> changeUP s \<and> down p then s\<lparr>outputMode := mode_down (outputMode s)\<rparr>
            else s) \<lparr>currentState := RELEASE\<rparr>
         else s
     | RELEASE \<Rightarrow>
         if \<not> up p \<and> \<not> down p then s\<lparr>currentState := IDLE\<rparr> else s)"

text \<open>
  Calling \<^verbatim>\<open>buttonFSM\<close> once per poll, oldest poll first. \<open>commits\<close> counts the calls
  that changed \<^verbatim>\<open>outputMode\<close>.
\<close>

fun run_fsm :: "fsm \<Rightarrow> poll list \<Rightarrow> fsm" where
  "run_fsm s [] = s"
| "run_fsm s (p # ps) = run_fsm (buttonFSM p s) ps"

fun commits :: "fsm \<Rightarrow> poll list \<Rightarrow> nat" where
  "commits s [] = 0"
| "commits s (p # ps) =
     (if outputMode (buttonFSM p s) \<noteq> outputMode s then 1 else 0) + commits (buttonFSM p s) ps"

text \<open>The debounce window, as \<^verbatim>\<open>buttonFSM\<close> tests it: more than 200 ms since \<open>t0\<close>.\<close>

definition elapsed :: "u32 \<Rightarrow> poll \<Rightarrow> bool" where
  "elapsed t0 p \<longleftrightarrow> now p - t0 > BTN_TIME"

text \<open>
  Vocabulary for one press. \<open>b\<close> names the button: True for up, False for down.
  \<open>press_seen b p\<close> says that a call in \<^verbatim>\<open>IDLE\<close> reading \<open>p\<close> starts a press of
  button \<open>b\<close> (the up button is tested first), \<open>pressed b p\<close> that button \<open>b\<close> reads
  pressed, \<open>released p\<close> that both buttons read released, and \<open>commit b\<close> is the slot
  change that button \<open>b\<close> commits.
\<close>

definition pressed :: "bool \<Rightarrow> poll \<Rightarrow> bool" where
  "pressed b p = (if b then up p else down p)"

definition press_seen :: "bool \<Rightarrow> poll \<Rightarrow> bool" where
  "press_seen b p = (if b then up p else \<not> up p \<and> down p)"

definition released :: "poll \<Rightarrow> bool" where
  "released p \<longleftrightarrow> \<not> up p \<and> \<not> down p"

definition commit :: "bool \<Rightarrow> u16 \<Rightarrow> u16" where
  "commit b m = (if b then mode_up m else mode_down m)"

subsection \<open>Animations\<close>

text \<open>
  Modelled from the spec: the struct \<^verbatim>\<open>AnimationDriver::animation\<close>, declared in
  \<^verbatim>\<open>AnimationDriver.h\<close>, which is not among the sources. The spec's keyframe is a
  colour of three bytes with a 32-bit timestamp, its record a sequence of keyframes with a
  total duration. \<^verbatim>\<open>main.cpp\<close> uses exactly these members: \<^verbatim>\<open>frameCount\<close>,
  \<^verbatim>\<open>frames[i]\<close> with \<^verbatim>\<open>color[0]\<close>, \<^verbatim>\<open>color[1]\<close>, \<^verbatim>\<open>color[2]\<close> (red, green,
  blue) and \<^verbatim>\<open>time\<close>, and \<^verbatim>\<open>time\<close>, the time of the whole animation. The struct's
  \<^verbatim>\<open>time\<close> is called \<open>duration\<close> here, since the keyframe has a \<^verbatim>\<open>time\<close> of its
  own. The array \<^verbatim>\<open>frames\<close> is a function from indices; an access is inside the array
  when the index is below \<open>MAX_FRAMES\<close>.
\<close>

record frame =
  red :: u8
  green :: u8
  blue :: u8
  time :: u32

record animation =
  frameCount :: u8
  frames :: "nat \<Rightarrow> frame"
  duration :: u32

text \<open>
  Modelled from the spec: the length of \<^verbatim>\<open>frames\<close>, declared in the absent
  \<^verbatim>\<open>AnimationDriver.h\<close>. The spec gives \<open>MAX_FRAMES = (142 - 2) div 7 = 20\<close>.
\<close>

definition MAX_FRAMES :: nat where "MAX_FRAMES = 20"

text \<open>
  \<^verbatim>\<open>sizeof(AnimationDriver::animation)\<close>. The declaration is absent; the value is the one
  that \<^verbatim>\<open>main.cpp\<close> itself notes at line 74: "Note animation size is 168 bytes &
  eeprom is 1kB".
\<close>

definition sizeof_animation :: nat where "sizeof_animation = 168"

subsection \<open>EEPROM\<close>

text \<open>
  The non-volatile memory is an array of bytes. \<^verbatim>\<open>EEPROM.put(addr, obj)\<close> copies the
  bytes of the object, \<^verbatim>\<open>sizeof(obj)\<close> of them, to the addresses from \<open>addr\<close> on;
  \<^verbatim>\<open>EEPROM.get(addr, obj)\<close> copies \<^verbatim>\<open>sizeof(obj)\<close> bytes back into the object.
  Neither looks at what the bytes mean, so a write reaches every slot whose bytes it
  covers. The capacity of the chip is not part of the model: \<^verbatim>\<open>main.cpp\<close> never
  compares an address with it, and what the driver does beyond it is outside the
  sources; the statements about slots below name the addresses they speak of.

  The bytes of an \<^verbatim>\<open>animation\<close> object: the declaration being absent, the layout is
  one that gives the 168 bytes of the note at line 74, the natural alignment of a 32-bit
  little-endian target. The frame count with three bytes of padding, twenty keyframes of
  eight bytes (three colour bytes, one byte of padding, the time with the least
  significant byte first), then the total time. Padding is written as 0. The properties
  below use two facts about the layout only: an object takes \<open>sizeof_animation\<close> bytes,
  and reading back the bytes of an object gives the object (\<open>in_memory\<close>: the twenty
  array entries; the record's function has no others that could be stored).
\<close>

type_synonym eeprom = "nat \<Rightarrow> u8"

definition zero_frame :: frame where
  "zero_frame = \<lparr>red = 0, green = 0, blue = 0, time = 0\<rparr>"

definition le32 :: "u32 \<Rightarrow> u8 list" where
  "le32 t = [ucast t, ucast (drop_bit 8 t), ucast (drop_bit 16 t), ucast (drop_bit 24 t)]"

definition from_le32 :: "u8 list \<Rightarrow> u32" where
  "from_le32 bs =
     ucast (bs ! 0) OR push_bit 8 (ucast (bs ! 1)) OR push_bit 16 (ucast (bs ! 2)) OR
     push_bit 24 (ucast (bs ! 3))"

definition frame_to_bytes :: "frame \<Rightarrow> u8 list" where
  "frame_to_bytes f = [red f, green f, blue f, 0] @ le32 (time f)"

definition frame_from_bytes :: "u8 list \<Rightarrow> frame" where
  "frame_from_bytes bs =
     \<lparr>red = bs ! 0, green = bs ! 1, blue = bs ! 2, time = from_le32 (drop 4 bs)\<rparr>"

definition to_bytes :: "animation \<Rightarrow> u8 list" where
  "to_bytes a =
     [frameCount a, 0, 0, 0] @
     concat (map (\<lambda>i. frame_to_bytes (frames a i)) [0..<MAX_FRAMES]) @
     le32 (duration a)"

definition from_bytes :: "u8 list \<Rightarrow> animation" where
  "from_bytes bs =
     \<lparr>frameCount = bs ! 0,
      frames = (\<lambda>i. if i < MAX_FRAMES then frame_from_bytes (take 8 (drop (4 + 8 * i) bs))
                    else zero_frame),
      duration = from_le32 (drop (4 + 8 * MAX_FRAMES) bs)\<rparr>"

definition in_memory :: "animation \<Rightarrow> animation" where
  "in_memory a = a\<lparr>frames := (\<lambda>i. if i < MAX_FRAMES then frames a i else zero_frame)\<rparr>"

definition EEPROM_put :: "nat \<Rightarrow> animation \<Rightarrow> eeprom \<Rightarrow> eeprom" where
  "EEPROM_put addr a e =
     (\<lambda>x. if addr \<le> x \<and> x < addr + length (to_bytes a) then to_bytes a ! (x - addr) else e x)"

definition EEPROM_get :: "nat \<Rightarrow> eeprom \<Rightarrow> animation" where
  "EEPROM_get addr e = from_bytes (map e [addr..<addr + sizeof_animation])"

subsection \<open>saveAnimationFromSerial (lines 151 to 173)\<close>

text \<open>
  One round of the \<^verbatim>\<open>for\<close> loop, for frame \<open>i\<close>. \<^verbatim>\<open>baseIndex\<close> is a \<^verbatim>\<open>byte\<close>, so
  \<^verbatim>\<open>i * FRAME_SIZE + 2\<close> is cut to 8 bits; the sums \<^verbatim>\<open>baseIndex + 1\<close> to
  \<^verbatim>\<open>baseIndex + 6\<close> are \<^verbatim>\<open>int\<close>. The result is \<open>None\<close> when the round reads
  past the end of \<open>buff\<close> or writes past the end of \<^verbatim>\<open>frames\<close>, which C leaves
  undefined.
\<close>

definition parse_time :: "u8 \<Rightarrow> u8 \<Rightarrow> u8 \<Rightarrow> u8 \<Rightarrow> u32" where
  "parse_time b3 b4 b5 b6 =
     push_bit 24 (ucast b3) OR push_bit 16 (ucast b4) OR push_bit 8 (ucast b5) OR ucast b6"

definition save_frame :: "u8 list \<Rightarrow> nat \<Rightarrow> animation \<Rightarrow> animation option" where
  "save_frame buff i a =
    (let baseIndex = (i * FRAME_SIZE + 2) mod 256 in
     if baseIndex + 6 < length buff \<and> i < MAX_FRAMES then
       let f = \<lparr>red = buff ! baseIndex, green = buff ! (baseIndex + 1),
                blue = buff ! (baseIndex + 2),
                time = parse_time (buff ! (baseIndex + 3)) (buff ! (baseIndex + 4))
                         (buff ! (baseIndex + 5)) (buff ! (baseIndex + 6))\<rparr>;
           a1 = a\<lparr>frames := (frames a)(i := f)\<rparr>
       in Some (if int i = int (unat (buff ! 1)) - 1 then a1\<lparr>duration := time f\<rparr> else a1)
     else None)"

function save_loop :: "u8 list \<Rightarrow> nat \<Rightarrow> animation \<Rightarrow> animation option" where
  "save_loop buff i a =
    (if i < unat (buff ! 1) then
       (case save_frame buff i a of None \<Rightarrow> None | Some a1 \<Rightarrow> save_loop buff (i + 1) a1)
     else Some a)"
  by pat_completeness auto
termination
  by (relation "measure (\<lambda>(buff, i, a). unat (buff ! 1) - i)") auto

text \<open>
  The object that \<^verbatim>\<open>saveAnimationFromSerial\<close> builds from \<open>buff\<close>. \<open>a0\<close> is the
  content of the local \<^verbatim>\<open>_a\<close> before the first assignment: the source does not
  initialise it, so it is whatever the stack holds.
\<close>

definition parse_animation :: "animation \<Rightarrow> u8 list \<Rightarrow> animation option" where
  "parse_animation a0 buff =
    (if length buff < 2 then None else save_loop buff 0 (a0\<lparr>frameCount := buff ! 1\<rparr>))"

definition saveAnimationFromSerial :: "animation \<Rightarrow> u8 list \<Rightarrow> eeprom \<Rightarrow> eeprom option" where
  "saveAnimationFromSerial a0 buff e =
    (case parse_animation a0 buff of
       None \<Rightarrow> None
     | Some a \<Rightarrow> Some (EEPROM_put (unat (buff ! 0) * sizeof_animation) a e))"

subsection \<open>The frame buffer of handleDownloadRequest (lines 289 to 304)\<close>

text \<open>
  One round of the inner \<^verbatim>\<open>for\<close> loop writes seven bytes of \<^verbatim>\<open>frameBuff\<close>.
  \<^verbatim>\<open>baseIndex\<close> is a \<^verbatim>\<open>uint8_t\<close>. The result is \<open>None\<close> when a round reads past the end
  of \<^verbatim>\<open>frames\<close> or writes past the end of \<^verbatim>\<open>frameBuff\<close>.
\<close>

function fill_frameBuff :: "animation \<Rightarrow> nat \<Rightarrow> u8 list \<Rightarrow> u8 list option" where
  "fill_frameBuff a fr frameBuff =
    (if fr < unat (frameCount a) then
       (let baseIndex = (fr * FRAME_SIZE) mod 256; f = frames a fr in
        if baseIndex + 6 < length frameBuff \<and> fr < MAX_FRAMES then
          fill_frameBuff a (fr + 1)
            (frameBuff[baseIndex := red f, baseIndex + 1 := green f, baseIndex + 2 := blue f,
               baseIndex + 3 := ucast (drop_bit 24 (time f)),
               baseIndex + 4 := ucast (drop_bit 16 (time f)),
               baseIndex + 5 := ucast (drop_bit 8 (time f)),
               baseIndex + 6 := ucast (time f)])
        else None)
     else Some frameBuff)"
  by pat_completeness auto
termination
  by (relation "measure (\<lambda>(a, fr, frameBuff). unat (frameCount a) - fr)") auto

text \<open>
  \<^verbatim>\<open>frameBuff\<close> is a variable-length array of \<^verbatim>\<open>frameCount * FRAME_SIZE\<close> bytes and is
  not initialised; \<open>junk\<close> is what it holds before the loop.
\<close>

definition frame_bytes :: "(nat \<Rightarrow> u8) \<Rightarrow> animation \<Rightarrow> u8 list option" where
  "frame_bytes junk a =
     fill_frameBuff a 0 (map junk [0..<unat (frameCount a) * FRAME_SIZE])"

subsection \<open>The wire encoding, in the words of the spec\<close>

text \<open>
  A keyframe on the wire is seven bytes: red, green, blue and the timestamp, most
  significant byte first. The payload of a record is its first \<open>frameCount\<close> keyframes
  in order; on the wire it follows the two header bytes, slot index and frame count.
\<close>

definition wire_frame :: "frame \<Rightarrow> u8 list" where
  "wire_frame f =
     [red f, green f, blue f, ucast (drop_bit 24 (time f)), ucast (drop_bit 16 (time f)),
      ucast (drop_bit 8 (time f)), ucast (time f)]"

definition keyframes :: "animation \<Rightarrow> frame list" where
  "keyframes a = map (frames a) [0..<unat (frameCount a)]"

definition wire_payload :: "animation \<Rightarrow> u8 list" where
  "wire_payload a = concat (map wire_frame (keyframes a))"

text \<open>A valid record: between 1 and 20 keyframes, and the duration is the last timestamp.\<close>

definition valid_animation :: "animation \<Rightarrow> bool" where
  "valid_animation a \<longleftrightarrow>
     1 \<le> unat (frameCount a) \<and> unat (frameCount a) \<le> MAX_FRAMES \<and>
     duration a = time (frames a (unat (frameCount a) - 1))"

subsection \<open>The serial line and the state of the device\<close>

text \<open>
  What the host does on the line, in order: \<open>Byte b\<close>, it sends the byte \<open>b\<close>;
  \<open>Quiet n\<close>, it sends nothing for \<open>n\<close> milliseconds. After the last event the host
  stays silent for good. A blocking read waits through any silence; a timed wait gives
  up when the silence outlasts its timeout.
\<close>

datatype rx_event = Byte u8 | Quiet nat

text \<open>
  What can be observed of the device on the line: \<open>Sent b\<close>, it wrote the byte \<open>b\<close>;
  \<open>Ack ok\<close>, a call of \<^verbatim>\<open>waitForAck\<close> ended with result \<open>ok\<close>.
  \<^verbatim>\<open>Serial.flush()\<close> only waits for the bytes to leave and is not recorded.
\<close>

datatype event = Sent u8 | Ack bool

text \<open>
  The locals that the source leaves uninitialised hold whatever the stack held:
  \<^verbatim>\<open>localBuff\<close> of \<^verbatim>\<open>handleUploadRequest\<close>, \<^verbatim>\<open>_a\<close> of
  \<^verbatim>\<open>saveAnimationFromSerial\<close> and \<^verbatim>\<open>frameBuff\<close> of \<^verbatim>\<open>handleDownloadRequest\<close>.
\<close>

record stack =
  junk_localBuff :: "nat \<Rightarrow> u8"
  junk_a :: animation
  junk_frameBuff :: "nat \<Rightarrow> u8"

text \<open>
  The state that the functions of \<^verbatim>\<open>main.cpp\<close> share. \<open>rx\<close> is what the host still
  has to do, \<open>trace\<close> what the device has done so far. \<open>animator\<close> is the animation
  last handed to \<^verbatim>\<open>animator.updateAnimation\<close>. \<open>btn\<close> holds the statics of
  \<^verbatim>\<open>buttonFSM\<close>, \<open>lastMode\<close> the static of \<^verbatim>\<open>loop\<close>. \<open>overrun\<close> lists the
  stores that went past the end of \<^verbatim>\<open>localBuff\<close>, as (index, value): C gives such a
  store no meaning; the model notes it and goes on with the next statement.
\<close>

record device =
  EEPROM :: eeprom
  rx :: "rx_event list"
  trace :: "event list"
  overrun :: "(nat \<times> u8) list"
  currentAnim :: animation
  animator :: "animation option"
  btn :: fsm
  lastMode :: u16

datatype outcome = Returned | Restart | Blocked | Undefined

definition emit :: "event list \<Rightarrow> device \<Rightarrow> device" where
  "emit es d = d\<lparr>trace := trace d @ es\<rparr>"

definition print :: "string \<Rightarrow> event list" where
  "print s = map (\<lambda>c. Sent (of_char c)) s"

definition crlf :: "event list" where
  "crlf = [Sent 13, Sent 10]"

definition println :: "string \<Rightarrow> event list" where
  "println s = print s @ crlf"

text \<open>
  \<^verbatim>\<open>while (Serial.available() < 1);\<close> followed by \<^verbatim>\<open>Serial.read()\<close>: the next
  byte, however long it takes; \<open>None\<close> when no byte ever comes and the loop spins for
  ever.
\<close>

fun read_byte :: "rx_event list \<Rightarrow> (u8 \<times> rx_event list) option" where
  "read_byte [] = None"
| "read_byte (Byte b # r) = Some (b, r)"
| "read_byte (Quiet n # r) = read_byte r"

subsection \<open>EEPROM_Load (lines 102 to 120)\<close>

text \<open>
  The object at \<^verbatim>\<open>index * sizeof(AnimationDriver::animation)\<close> is copied into the global
  \<^verbatim>\<open>currentAnim\<close>. The program calls the function with indices from 0 to 5, for which
  the cast of the product to \<^verbatim>\<open>int\<close> changes nothing.
  \<^verbatim>\<open>animator.updateAnimation(currentAnim)\<close> hands \<^verbatim>\<open>currentAnim\<close> to the animator.
\<close>

definition EEPROM_Load :: "u8 \<Rightarrow> device \<Rightarrow> device" where
  "EEPROM_Load index d =
     d\<lparr>currentAnim := EEPROM_get (unat index * sizeof_animation) (EEPROM d)\<rparr>"

definition updateAnimation :: "device \<Rightarrow> device" where
  "updateAnimation d = d\<lparr>animator := Some (currentAnim d)\<rparr>"

subsection \<open>waitForAck (lines 176 to 208)\<close>

text \<open>
  The loop polls until a byte is there or \<^verbatim>\<open>millis() - timer > timeout\<close>. \<open>el\<close> is
  the time waited so far. A byte ends the wait at once: success when it is
  \<^verbatim>\<open>0xff\<close>. A silence that takes the wait beyond \<open>timeout\<close> ends it with failure,
  and what is left of the silence stays on the line.
\<close>

fun waitForAck_loop :: "nat \<Rightarrow> nat \<Rightarrow> rx_event list \<Rightarrow> bool \<times> rx_event list" where
  "waitForAck_loop timeout el [] = (False, [])"
| "waitForAck_loop timeout el (Byte ack # r) = (ack = 0xff, r)"
| "waitForAck_loop timeout el (Quiet n # r) =
     (if el + n > timeout then (False, Quiet (el + n - timeout) # r)
      else waitForAck_loop timeout (el + n) r)"

definition waitForAck :: "nat \<Rightarrow> device \<Rightarrow> bool \<times> device" where
  "waitForAck timeout d =
    (case waitForAck_loop timeout 0 (rx d) of
       (True, r) \<Rightarrow> (True, emit [Ack True] (d\<lparr>rx := r\<rparr>))
     | (False, r) \<Rightarrow> (False, emit (println ''ACK Fail'' @ [Ack False]) (d\<lparr>rx := r\<rparr>)))"

subsection \<open>handleUploadRequest (lines 211 to 261)\<close>

datatype received = Complete | Overflow | Starved

text \<open>
  The \<^verbatim>\<open>while\<close> loop of lines 226 to 244. \<open>buffCount\<close> is a \<^verbatim>\<open>byte\<close>; the bound
  \<^verbatim>\<open>localBuff[1] * FRAME_SIZE + META_SIZE\<close> is an \<^verbatim>\<open>int\<close>. Each round first waits until
  a byte is available, without taking it. When \<^verbatim>\<open>buffCount <= SERIAL_PACKET\<close> the round
  takes the byte and stores it at index \<open>buffCount\<close>: inside the array when the index
  is below its length, past its end otherwise. When the test fails the function prints an
  empty line and returns; the byte stays on the line.
\<close>

function upload_loop ::
  "u8 list \<Rightarrow> (nat \<times> u8) list \<Rightarrow> nat \<Rightarrow> rx_event list
    \<Rightarrow> received \<times> u8 list \<times> (nat \<times> u8) list \<times> nat \<times> rx_event list" where
  "upload_loop localBuff over buffCount r =
    (if buffCount < unat (localBuff ! 1) * FRAME_SIZE + META_SIZE then
       (case read_byte r of
          None \<Rightarrow> (Starved, localBuff, over, buffCount, [])
        | Some (data, r1) \<Rightarrow>
            if buffCount \<le> SERIAL_PACKET then
              (if buffCount < length localBuff
               then upload_loop (localBuff[buffCount := data]) over
                      ((buffCount + 1) mod 256) r1
               else upload_loop localBuff (over @ [(buffCount, data)])
                      ((buffCount + 1) mod 256) r1)
            else (Overflow, localBuff, over, buffCount, Byte data # r1))
     else (Complete, localBuff, over, buffCount, r))"
  by pat_completeness auto
termination
proof (relation "measure (\<lambda>(localBuff, over, buffCount, r). length r)")
  have shorter: "length r1 < length r" if "read_byte r = Some (data, r1)"
    for r r1 :: "rx_event list" and data :: u8
    using that by (induction r rule: read_byte.induct) auto
  show "wf (measure (\<lambda>(localBuff, over, buffCount, r). length r))"
    by simp
  show "((localBuff[buffCount := data], over, (buffCount + 1) mod 256, r1),
         (localBuff, over, buffCount, r))
        \<in> measure (\<lambda>(localBuff, over, buffCount, r). length r)"
    if "read_byte r = Some x2" and "(data, r1) = x2"
    for localBuff over buffCount r x2 data r1
    using that shorter [of r data r1] by simp
  show "((localBuff, over @ [(buffCount, data)], (buffCount + 1) mod 256, r1),
         (localBuff, over, buffCount, r))
        \<in> measure (\<lambda>(localBuff, over, buffCount, r). length r)"
    if "read_byte r = Some x2" and "(data, r1) = x2"
    for localBuff over buffCount r x2 data r1
    using that shorter [of r data r1] by simp
qed

text \<open>
  The function waits for the two header bytes, runs the loop, echoes
  \<^verbatim>\<open>buffCount\<close> bytes of the buffer and waits for the acknowledgement;
  \<^verbatim>\<open>resetFunc()\<close> jumps to address 0 and does not come back.
\<close>

definition handleUploadRequest :: "stack \<Rightarrow> device \<Rightarrow> outcome \<times> device" where
  "handleUploadRequest g d =
    (case read_byte (rx d) of
       None \<Rightarrow> (Blocked, d\<lparr>rx := []\<rparr>)
     | Some (b0, r0) \<Rightarrow>
    (case read_byte r0 of
       None \<Rightarrow> (Blocked, d\<lparr>rx := []\<rparr>)
     | Some (b1, r1) \<Rightarrow>
    (case upload_loop ((map (junk_localBuff g) [0..<SERIAL_PACKET])[0 := b0, 1 := b1])
            [] META_SIZE r1 of
       (Starved, localBuff, over, buffCount, r2) \<Rightarrow>
         (Blocked, d\<lparr>rx := r2, overrun := overrun d @ over\<rparr>)
     | (Overflow, localBuff, over, buffCount, r2) \<Rightarrow>
         (Returned, emit (println []) (d\<lparr>rx := r2, overrun := overrun d @ over\<rparr>))
     | (Complete, localBuff, over, buffCount, r2) \<Rightarrow>
         (case waitForAck 1000
                 (emit (map Sent (take buffCount localBuff))
                    (d\<lparr>rx := r2, overrun := overrun d @ over\<rparr>)) of
            (True, d1) \<Rightarrow>
              (case saveAnimationFromSerial (junk_a g) localBuff (EEPROM d1) of
                 None \<Rightarrow> (Undefined, d1)
               | Some e \<Rightarrow> (Returned, emit (println ''Done'') (d1\<lparr>EEPROM := e\<rparr>)))
          | (False, d1) \<Rightarrow> (Restart, d1)))))"

subsection \<open>handleDownloadRequest (lines 264 to 314)\<close>

text \<open>One round of the outer \<^verbatim>\<open>for\<close> loop, for slot \<open>i\<close>.\<close>

definition download_slot :: "stack \<Rightarrow> nat \<Rightarrow> device \<Rightarrow> outcome \<times> device" where
  "download_slot g i d =
    (let a = EEPROM_get (i * sizeof_animation) (EEPROM d) in
     case waitForAck 1000 d of
       (False, d1) \<Rightarrow> (Restart, d1)
     | (True, d1) \<Rightarrow>
    (case waitForAck 1000 (emit [Sent (of_nat i), Sent (frameCount a)] d1) of
       (False, d2) \<Rightarrow> (Restart, d2)
     | (True, d2) \<Rightarrow>
    (case frame_bytes (junk_frameBuff g) a of
       None \<Rightarrow> (Undefined, d2)
     | Some frameBuff \<Rightarrow>
    (case waitForAck 1000
            (emit (map Sent (take (unat (frameCount a) * FRAME_SIZE) frameBuff)) d2) of
       (False, d3) \<Rightarrow> (Restart, d3)
     | (True, d3) \<Rightarrow> (Returned, d3)))))"

function download_loop :: "stack \<Rightarrow> nat \<Rightarrow> device \<Rightarrow> outcome \<times> device" where
  "download_loop g i d =
    (if i < 6 then
       (case download_slot g i d of
          (Returned, d1) \<Rightarrow> download_loop g (i + 1) d1
        | (out, d1) \<Rightarrow> (out, d1))
     else (Returned, d))"
  by pat_completeness auto
termination
  by (relation "measure (\<lambda>(g, i, d). 6 - i)") auto

definition handleDownloadRequest :: "stack \<Rightarrow> device \<Rightarrow> outcome \<times> device" where
  "handleDownloadRequest g d = download_loop g 0 d"

subsection \<open>handleSerial (lines 317 to 343)\<close>

text \<open>
  \<^verbatim>\<open>Serial.readStringUntil('-')\<close> of the Arduino core: bytes are appended until the
  terminator comes, which is taken and dropped, or until no byte has come for the
  stream's timeout of 1000 ms.
\<close>

fun readStringUntil :: "u8 \<Rightarrow> nat \<Rightarrow> rx_event list \<Rightarrow> u8 list \<times> rx_event list" where
  "readStringUntil terminator el [] = ([], [])"
| "readStringUntil terminator el (Byte c # r) =
     (if c = terminator then ([], r)
      else (case readStringUntil terminator 0 r of (code, r1) \<Rightarrow> (c # code, r1)))"
| "readStringUntil terminator el (Quiet n # r) =
     (if el + n \<ge> 1000 then ([], Quiet (el + n - 1000) # r)
      else readStringUntil terminator (el + n) r)"

text \<open>
  The \<^verbatim>\<open>switch\<close> is on \<^verbatim>\<open>code[0]\<close>, which is 0 for an empty string. The
  characters \<^verbatim>\<open>'0'\<close> to \<^verbatim>\<open>'5'\<close> are the bytes 48 to 53, \<^verbatim>\<open>'d'\<close> is 100 and
  \<^verbatim>\<open>'-'\<close> is 45.
\<close>

definition handleSerial :: "stack \<Rightarrow> device \<Rightarrow> outcome \<times> device" where
  "handleSerial g d =
    (case readStringUntil 45 0 (rx d) of (code, r) \<Rightarrow>
     let d1 = emit (print ''ready_'' @ map Sent code @ crlf) (d\<lparr>rx := r\<rparr>);
         c = (case code of [] \<Rightarrow> 0 | c # _ \<Rightarrow> c)
     in if c = 48 \<or> c = 49 \<or> c = 50 \<or> c = 51 \<or> c = 52 \<or> c = 53 then handleUploadRequest g d1
        else if c = 100 then handleDownloadRequest g d1
        else (Returned, emit (println []) d1))"

subsection \<open>setup and loop (lines 440 to 525)\<close>

text \<open>
  The state after a reset, before \<^verbatim>\<open>setup\<close> runs: the globals and statics have
  their initial values, the EEPROM keeps its content.
\<close>

definition zero_animation :: animation where
  "zero_animation =
     \<lparr>frameCount = 0, frames = (\<lambda>i. \<lparr>red = 0, green = 0, blue = 0, time = 0\<rparr>), duration = 0\<rparr>"

definition reset :: "device \<Rightarrow> device" where
  "reset d = d\<lparr>currentAnim := zero_animation, animator := None, btn := fsm_init, lastMode := 0\<rparr>"

definition power_on :: "eeprom \<Rightarrow> device" where
  "power_on e =
     \<lparr>EEPROM = e, rx = [], trace = [], overrun = [], currentAnim = zero_animation,
      animator = None, btn = fsm_init, lastMode = 0\<rparr>"

text \<open>
  \<^verbatim>\<open>setup\<close>: the greeting, then slot 0 is loaded and handed to the animator. The LED
  strip, the brightness and the pin modes are left out: nothing below reads them.
\<close>

definition setup_fn :: "device \<Rightarrow> device" where
  "setup_fn d = updateAnimation (EEPROM_Load 0 (emit (println ''ready'') d))"

text \<open>
  \<^verbatim>\<open>Serial.available() > 0\<close> at the top of \<^verbatim>\<open>loop\<close>: a byte is waiting. A call
  that finds none takes its time: a silence at the head of the line is over when the
  call returns, and the bytes behind it are waiting at the next call.
\<close>

fun pending :: "rx_event list \<Rightarrow> bool" where
  "pending (Byte b # r) = True"
| "pending r = False"

fun skip_quiet :: "rx_event list \<Rightarrow> rx_event list" where
  "skip_quiet (Quiet n # r) = skip_quiet r"
| "skip_quiet r = r"

text \<open>
  One call of \<^verbatim>\<open>loop\<close>. \<open>arrive\<close> is what the host starts to do on the line before
  this call; \<open>p\<close> is what \<^verbatim>\<open>buttonFSM\<close> reads, should it be called. The local
  \<^verbatim>\<open>currentMode\<close> is initialised to 0 at every call and is only assigned in the
  \<^verbatim>\<open>else\<close> branch. The brightness knob and \<^verbatim>\<open>animator.run\<close> are left out; they
  touch neither the statics nor the EEPROM.
\<close>

definition loop :: "stack \<Rightarrow> poll \<Rightarrow> rx_event list \<Rightarrow> device \<Rightarrow> outcome \<times> device" where
  "loop g p arrive d0 =
    (let d = d0\<lparr>rx := rx d0 @ arrive\<rparr>;
         currentMode = (0 :: u16)
     in if pending (rx d) then
          (case handleSerial g d of
             (Returned, d1) \<Rightarrow> (Returned, updateAnimation (EEPROM_Load (ucast currentMode) d1))
           | (out, d1) \<Rightarrow> (out, d1))
        else
          (let d1 = d\<lparr>rx := skip_quiet (rx d), btn := buttonFSM p (btn d)\<rparr>;
               currentMode = outputMode (btn d1)
           in (Returned,
               if currentMode \<noteq> lastMode d1
               then (updateAnimation (EEPROM_Load (ucast currentMode) d1))\<lparr>lastMode := currentMode\<rparr>
               else d1)))"

text \<open>
  The calls of \<^verbatim>\<open>loop\<close> one after the other. After \<^verbatim>\<open>resetFunc()\<close> the program
  starts again with \<^verbatim>\<open>setup\<close>. The run ends where a call does not return.
\<close>

fun run :: "stack \<Rightarrow> (poll \<times> rx_event list) list \<Rightarrow> device \<Rightarrow> outcome \<times> device" where
  "run g [] d = (Returned, d)"
| "run g (t # ts) d =
    (case loop g (fst t) (snd t) d of
       (Returned, d1) \<Rightarrow> run g ts d1
     | (Restart, d1) \<Rightarrow> run g ts (setup_fn (reset d1))
     | (out, d1) \<Rightarrow> (out, d1))"

subsection \<open>The download exchange, in the words of the spec\<close>

text \<open>
  \<open>acks n r\<close>: \<open>n\<close> waits for an acknowledgement in a row, each with the timeout of
  1000 ms, all succeed on the line \<open>r\<close>; the result is what is left of the line.
  \<open>triple i a\<close> is the acknowledgement-gated triple for slot \<open>i\<close> holding \<open>a\<close>: a
  wait, the two header bytes, a wait, the wire payload, a wait.
\<close>

fun acks :: "nat \<Rightarrow> rx_event list \<Rightarrow> rx_event list option" where
  "acks 0 r = Some r"
| "acks (Suc n) r =
     (case waitForAck_loop 1000 0 r of (True, r1) \<Rightarrow> acks n r1 | (False, r1) \<Rightarrow> None)"

definition triple :: "nat \<Rightarrow> animation \<Rightarrow> event list" where
  "triple i a =
     [Ack True, Sent (of_nat i), Sent (frameCount a), Ack True] @ map Sent (wire_payload a) @
     [Ack True]"

text \<open>
  Stores and stacks for the examples. \<open>zero_store\<close> holds zero bytes. \<open>demo_store\<close>
  holds six records written side by side, the one of slot \<open>s\<close> with \<open>s + 1\<close> frames, so
  that the slots can be told apart. \<open>zero_stack\<close> happens to hold zeros; \<open>demo_stack\<close>
  holds left-overs: a record of nine frames with the total time 32765.
\<close>

definition zero_store :: eeprom where
  "zero_store = (\<lambda>x. 0)"

definition demo_record :: "nat \<Rightarrow> animation" where
  "demo_record s = \<lparr>frameCount = of_nat s + 1, frames = (\<lambda>i. zero_frame), duration = 0\<rparr>"

definition write_slots :: "(nat \<Rightarrow> animation) \<Rightarrow> nat \<Rightarrow> eeprom \<Rightarrow> eeprom" where
  "write_slots f n e = fold (\<lambda>s. EEPROM_put (s * sizeof_animation) (f s)) [0..<n] e"

definition demo_store :: eeprom where
  "demo_store = write_slots demo_record 6 zero_store"

definition zero_stack :: stack where
  "zero_stack = \<lparr>junk_localBuff = (\<lambda>i. 0), junk_a = zero_animation, junk_frameBuff = (\<lambda>i. 0)\<rparr>"

definition demo_stack :: stack where
  "demo_stack =
     \<lparr>junk_localBuff = (\<lambda>i. 238),
      junk_a = \<lparr>frameCount = 9, frames = (\<lambda>i. \<lparr>red = 1, green = 2, blue = 3, time = 4\<rparr>),
                duration = 32765\<rparr>,
      junk_frameBuff = (\<lambda>i. 221)\<rparr>"

text \<open>The equations of the loops are unfolded by hand, one round at a time.\<close>

declare save_loop.simps [simp del]
declare fill_frameBuff.simps [simp del]
declare upload_loop.simps [simp del]
declare download_loop.simps [simp del]

section \<open>Properties\<close>

subsection \<open>The mode selector\<close>

lemma mode_up_neq: "mode_up m \<noteq> m"
proof
  assume h: "mode_up m = m"
  have "unat (mode_up m) = (unat m + 1) mod 6"
    unfolding mode_up_def SLOT_COUNT_def
    by (simp add: unat_of_nat take_bit_nat_eq_self)
  with h have "unat m = (unat m + 1) mod 6" by simp
  then show False by presburger
qed

lemma mode_down_neq: "mode_down m \<noteq> m"
  by (simp add: mode_down_def SLOT_COUNT_def)

lemma commit_neq: "commit b m \<noteq> m"
  by (simp add: commit_def mode_up_neq mode_down_neq)

lemma mode_up_le: "mode_up m \<le> 5"
proof -
  have "unat (mode_up m) = (unat m + 1) mod 6"
    unfolding mode_up_def SLOT_COUNT_def
    by (simp add: unat_of_nat take_bit_nat_eq_self)
  then have "unat (mode_up m) \<le> 5" by simp
  then show ?thesis by (simp add: word_le_nat_alt)
qed

lemma mode_down_le: "m \<le> 5 \<Longrightarrow> mode_down m \<le> 5"
proof (cases "m = 0")
  case True
  then show ?thesis by (simp add: mode_down_def SLOT_COUNT_def)
next
  case False
  assume "m \<le> 5"
  then have "unat m \<le> 5" by (simp add: word_le_nat_alt)
  with False have "unat (m - 1) \<le> 5" by (simp add: unat_minus_one)
  then have "m - 1 \<le> 5" by (simp add: word_le_nat_alt)
  with False show ?thesis by (simp add: mode_down_def word_less_1)
qed

lemma mode_up_5: "mode_up 5 = 0"
  by (simp add: mode_up_def SLOT_COUNT_def)

lemma mode_down_0: "mode_down 0 = 5"
  by (simp add: mode_down_def SLOT_COUNT_def)

lemma mode_up_lt: "m < 5 \<Longrightarrow> mode_up m = m + 1"
  apply (simp add: mode_up_def SLOT_COUNT_def)
  apply (simp add: word_less_nat_alt)
  done

lemma mode_down_pos: "0 < m \<Longrightarrow> mode_down m = m - 1"
  by (auto simp add: mode_down_def)

lemma fsm_wait: "currentState s = TRIGGERED \<Longrightarrow> \<forall>q\<in>set qs. \<not> elapsed (timer s) q
   \<Longrightarrow> run_fsm s qs = s \<and> commits s qs = 0"
  by (induction qs) (auto simp: elapsed_def)

lemma fsm_held: "currentState s = RELEASE \<Longrightarrow> \<forall>q\<in>set qs. \<not> released q
   \<Longrightarrow> run_fsm s qs = s \<and> commits s qs = 0"
  by (induction qs) (auto simp: released_def)

lemma fsm_idle: "currentState s = IDLE \<Longrightarrow> \<forall>q\<in>set qs. released q
   \<Longrightarrow> run_fsm s qs = s \<and> commits s qs = 0"
  by (induction qs) (auto simp: released_def)

lemma run_fsm_append: "run_fsm s (xs @ ys) = run_fsm (run_fsm s xs) ys"
  by (induction xs arbitrary: s) auto

lemma commits_append: "commits s (xs @ ys) = commits s xs + commits (run_fsm s xs) ys"
  by (induction xs arbitrary: s) auto

lemma fsm_press: "currentState s = IDLE \<Longrightarrow> press_seen b p \<Longrightarrow>
  buttonFSM p s = s\<lparr>currentState := TRIGGERED, changeUP := b, timer := now p\<rparr>"
  by (cases b) (auto simp: press_seen_def)

lemma fsm_decide_held: "currentState s = TRIGGERED \<Longrightarrow> elapsed (timer s) p \<Longrightarrow> pressed (changeUP s) p \<Longrightarrow>
  buttonFSM p s = s\<lparr>outputMode := commit (changeUP s) (outputMode s), currentState := RELEASE\<rparr>"
  by (auto simp: pressed_def elapsed_def commit_def)

lemma fsm_decide_released: "currentState s = TRIGGERED \<Longrightarrow> elapsed (timer s) p \<Longrightarrow> \<not> pressed (changeUP s) p \<Longrightarrow>
  buttonFSM p s = s\<lparr>currentState := RELEASE\<rparr>"
  by (auto simp: pressed_def elapsed_def commit_def)


lemma fsm_released_run: "currentState s = RELEASE \<Longrightarrow> \<forall>q\<in>set qs. released q \<Longrightarrow>
  commits s qs = 0 \<and> outputMode (run_fsm s qs) = outputMode s \<and>
  currentState (run_fsm s qs) = (if qs = [] then RELEASE else IDLE)"
proof (cases qs)
  case Nil
  assume "currentState s = RELEASE"
  with Nil show ?thesis by simp
next
  case (Cons q rest)
  assume rel: "currentState s = RELEASE" and all: "\<forall>q\<in>set qs. released q"
  from rel all Cons have step: "buttonFSM q s = s\<lparr>currentState := IDLE\<rparr>"
    by (simp add: released_def)
  have "run_fsm (s\<lparr>currentState := IDLE\<rparr>) rest = s\<lparr>currentState := IDLE\<rparr>
      \<and> commits (s\<lparr>currentState := IDLE\<rparr>) rest = 0"
    using all Cons by (intro fsm_idle) simp_all
  with step Cons show ?thesis by simp
qed

lemma press_prefix:
  assumes idle: "currentState s = IDLE" and seen: "press_seen b p0"
    and inside: "\<forall>q\<in>set inside. \<not> elapsed (now p0) q"
  shows "run_fsm s (p0 # inside) = s\<lparr>currentState := TRIGGERED, changeUP := b, timer := now p0\<rparr>"
    and "commits s (p0 # inside) = 0"
proof -
  let ?s1 = "s\<lparr>currentState := TRIGGERED, changeUP := b, timer := now p0\<rparr>"
  have step: "buttonFSM p0 s = ?s1" using idle seen by (rule fsm_press)
  have "run_fsm ?s1 inside = ?s1 \<and> commits ?s1 inside = 0"
    using inside by (intro fsm_wait) simp_all
  with step show "run_fsm s (p0 # inside) = ?s1" and "commits s (p0 # inside) = 0"
    by simp_all
qed

lemma short_press:
  assumes idle: "currentState s = IDLE" and seen: "press_seen b p0"
    and inside: "\<forall>q\<in>set inside. \<not> elapsed (now p0) q"
    and d: "elapsed (now p0) d" "\<not> pressed b d"
    and rel: "\<forall>q\<in>set rel. released q"
  shows "commits s (p0 # inside @ d # rel) = 0 \<and>
     outputMode (run_fsm s (p0 # inside @ d # rel)) = outputMode s \<and>
     currentState (run_fsm s (p0 # inside @ [d])) = RELEASE"
proof -
  let ?s1 = "s\<lparr>currentState := TRIGGERED, changeUP := b, timer := now p0\<rparr>"
  let ?s2 = "?s1\<lparr>currentState := RELEASE\<rparr>"
  note pre = press_prefix [OF idle seen inside]
  have step: "buttonFSM d ?s1 = ?s2"
    using d by (intro fsm_decide_released) simp_all
  have tail: "commits ?s2 rel = 0 \<and> outputMode (run_fsm ?s2 rel) = outputMode ?s2"
    using fsm_released_run [of ?s2 rel] rel by simp
  have run: "run_fsm s (p0 # inside @ d # rel) = run_fsm ?s2 rel"
    using pre(1) step run_fsm_append [of s "p0 # inside" "d # rel"] by simp
  have com: "commits s (p0 # inside @ d # rel) = commits ?s2 rel"
    using pre step commits_append [of s "p0 # inside" "d # rel"] by simp
  have mid: "run_fsm s (p0 # inside @ [d]) = ?s2"
    using pre(1) step run_fsm_append [of s "p0 # inside" "[d]"] by simp
  show ?thesis using tail run com mid by simp
qed

lemma long_press:
  assumes idle: "currentState s = IDLE" and seen: "press_seen b p0"
    and inside: "\<forall>q\<in>set inside. \<not> elapsed (now p0) q"
    and d: "elapsed (now p0) d" "pressed b d"
    and held: "\<forall>q\<in>set held. pressed b q"
    and rel: "\<forall>q\<in>set rel. released q"
  shows "commits s (p0 # inside @ d # held @ rel) = 1 \<and>
     outputMode (run_fsm s (p0 # inside @ d # held @ rel)) = commit b (outputMode s) \<and>
     currentState (run_fsm s (p0 # inside @ d # held)) = RELEASE \<and>
     (rel \<noteq> [] \<longrightarrow> currentState (run_fsm s (p0 # inside @ d # held @ rel)) = IDLE)"
proof -
  let ?s1 = "s\<lparr>currentState := TRIGGERED, changeUP := b, timer := now p0\<rparr>"
  let ?s2 = "?s1\<lparr>outputMode := commit b (outputMode s), currentState := RELEASE\<rparr>"
  note pre = press_prefix [OF idle seen inside]
  have step: "buttonFSM d ?s1 = ?s2"
    using d fsm_decide_held [of ?s1 d] by simp
  have nrel: "\<forall>q\<in>set held. \<not> released q"
    using held by (auto simp: pressed_def released_def split: if_splits)
  have hold: "run_fsm ?s2 held = ?s2 \<and> commits ?s2 held = 0"
    using nrel by (intro fsm_held) simp_all
  have tail: "commits ?s2 rel = 0 \<and> outputMode (run_fsm ?s2 rel) = outputMode ?s2
      \<and> currentState (run_fsm ?s2 rel) = (if rel = [] then RELEASE else IDLE)"
    using fsm_released_run [of ?s2 rel] rel by simp
  have run1: "run_fsm s (p0 # inside @ d # held) = ?s2"
    using pre(1) step hold run_fsm_append [of s "p0 # inside" "d # held"] by simp
  have run2: "run_fsm s (p0 # inside @ d # held @ rel) = run_fsm ?s2 rel"
    using run1 run_fsm_append [of s "p0 # inside @ d # held" rel] by simp
  have c1: "commits s (p0 # inside @ d # held) = 1"
    using pre step hold commits_append [of s "p0 # inside" "d # held"]
    by (simp add: commit_neq)
  have c2: "commits s (p0 # inside @ d # held @ rel) = 1"
    using c1 run1 tail commits_append [of s "p0 # inside @ d # held" rel] by simp
  show ?thesis using run1 run2 c2 tail by simp
qed


lemma buttonFSM_range: "outputMode s \<le> 5 \<Longrightarrow> outputMode (buttonFSM p s) \<le> 5"
  by (cases "currentState s") (simp_all add: mode_up_le mode_down_le)

lemma run_fsm_range: "outputMode s \<le> 5 \<Longrightarrow> outputMode (run_fsm s ps) \<le> 5"
proof (induction ps arbitrary: s)
  case Nil
  then show ?case by simp
next
  case (Cons p ps)
  from Cons.prems have "outputMode (buttonFSM p s) \<le> 5" by (rule buttonFSM_range)
  then have "outputMode (run_fsm (buttonFSM p s) ps) \<le> 5" by (rule Cons.IH)
  then show ?case by simp
qed

text \<open>
  C8. In \<^verbatim>\<open>TRIGGERED\<close>, at a call that finds the debounce window elapsed: a committed
  "up" (the press was an up press and the up button still reads pressed) turns slot 5
  into slot 0 and any slot below 5 into the next one; a committed "down" turns slot 0
  into slot 5 and any slot above 0 into the one before. A call of \<^verbatim>\<open>buttonFSM\<close>
  never takes the output out of 0..5, and from the initial statics the output stays in
  0..5 whatever the buttons and the clock do.
\<close>

theorem mode_selector_wraparound:
  "(currentState s = TRIGGERED \<and> elapsed (timer s) p \<and> changeUP s \<and> up p \<longrightarrow>
      (outputMode s = 5 \<longrightarrow> outputMode (buttonFSM p s) = 0) \<and>
      (outputMode s < 5 \<longrightarrow> outputMode (buttonFSM p s) = outputMode s + 1)) \<and>
   (currentState s = TRIGGERED \<and> elapsed (timer s) p \<and> \<not> changeUP s \<and> down p \<longrightarrow>
      (outputMode s = 0 \<longrightarrow> outputMode (buttonFSM p s) = 5) \<and>
      (0 < outputMode s \<longrightarrow> outputMode (buttonFSM p s) = outputMode s - 1)) \<and>
   (outputMode s \<le> 5 \<longrightarrow> outputMode (buttonFSM p s) \<le> 5) \<and>
   unat (outputMode (run_fsm fsm_init ps)) < SLOT_COUNT"
proof -
  have "outputMode (run_fsm fsm_init ps) \<le> 5"
    by (rule run_fsm_range) (simp add: fsm_init_def)
  then have "unat (outputMode (run_fsm fsm_init ps)) < SLOT_COUNT"
    by (simp add: word_le_nat_alt SLOT_COUNT_def)
  moreover have "outputMode s \<le> 5 \<longrightarrow> outputMode (buttonFSM p s) \<le> 5"
    using buttonFSM_range [of s p] by blast
  moreover have "currentState s = TRIGGERED \<and> elapsed (timer s) p \<and> changeUP s \<and> up p \<longrightarrow>
      (outputMode s = 5 \<longrightarrow> outputMode (buttonFSM p s) = 0) \<and>
      (outputMode s < 5 \<longrightarrow> outputMode (buttonFSM p s) = outputMode s + 1)"
    by (auto simp: elapsed_def mode_up_5 mode_up_lt)
  moreover have "currentState s = TRIGGERED \<and> elapsed (timer s) p \<and> \<not> changeUP s \<and> down p \<longrightarrow>
      (outputMode s = 0 \<longrightarrow> outputMode (buttonFSM p s) = 5) \<and>
      (0 < outputMode s \<longrightarrow> outputMode (buttonFSM p s) = outputMode s - 1)"
    by (auto simp: elapsed_def mode_down_0 mode_down_pos)
  ultimately show ?thesis by blast
qed

theorem mode_selector_wraparound_witness:
  "outputMode (buttonFSM \<lparr>up = True, down = False, now = 201\<rparr>
      \<lparr>currentState = TRIGGERED, changeUP = True, timer = 0, outputMode = 5\<rparr>) = 0 \<and>
   outputMode (buttonFSM \<lparr>up = True, down = False, now = 201\<rparr>
      \<lparr>currentState = TRIGGERED, changeUP = True, timer = 0, outputMode = 2\<rparr>) = 3 \<and>
   outputMode (buttonFSM \<lparr>up = False, down = True, now = 201\<rparr>
      \<lparr>currentState = TRIGGERED, changeUP = False, timer = 0, outputMode = 0\<rparr>) = 5 \<and>
   outputMode (buttonFSM \<lparr>up = False, down = True, now = 201\<rparr>
      \<lparr>currentState = TRIGGERED, changeUP = False, timer = 0, outputMode = 4\<rparr>) = 3"
  using
    mode_selector_wraparound [of
      "\<lparr>currentState = TRIGGERED, changeUP = True, timer = 0, outputMode = 5\<rparr>"
      "\<lparr>up = True, down = False, now = 201\<rparr>" "[]"]
    mode_selector_wraparound [of
      "\<lparr>currentState = TRIGGERED, changeUP = True, timer = 0, outputMode = 2\<rparr>"
      "\<lparr>up = True, down = False, now = 201\<rparr>" "[]"]
    mode_selector_wraparound [of
      "\<lparr>currentState = TRIGGERED, changeUP = False, timer = 0, outputMode = 0\<rparr>"
      "\<lparr>up = False, down = True, now = 201\<rparr>" "[]"]
    mode_selector_wraparound [of
      "\<lparr>currentState = TRIGGERED, changeUP = False, timer = 0, outputMode = 4\<rparr>"
      "\<lparr>up = False, down = True, now = 201\<rparr>" "[]"]
  by (simp add: elapsed_def BTN_TIME_def)

text \<open>
  C9. One press, seen from \<^verbatim>\<open>IDLE\<close> by the call that reads \<open>p0\<close>. The calls reading
  \<open>inside\<close> all find at most 200 ms gone since \<open>p0\<close>; the call reading \<open>d\<close> is the
  first that finds more than 200 ms gone.
  While the window has not elapsed the machine waits in \<^verbatim>\<open>TRIGGERED\<close> and commits
  nothing. If the button no longer reads pressed at \<open>d\<close>, nothing is committed: the slot
  is unchanged after \<open>d\<close> and after any further calls \<open>rel\<close> with both buttons
  released, and the machine is in \<^verbatim>\<open>RELEASE\<close> after \<open>d\<close>. If the button still reads
  pressed at \<open>d\<close>, exactly one call changes the slot, however many calls \<open>held\<close>
  follow with the button still pressed; the machine stays in \<^verbatim>\<open>RELEASE\<close> through
  them and is in \<^verbatim>\<open>IDLE\<close> after the first call that reads both buttons released.
  From \<^verbatim>\<open>RELEASE\<close>, a call leads to \<^verbatim>\<open>IDLE\<close> exactly when both buttons read released.
\<close>

theorem debounce_single_press:
  assumes "currentState s = IDLE" and "press_seen b p0"
    and "\<forall>q\<in>set inside. \<not> elapsed (now p0) q"
    and "elapsed (now p0) d"
    and "\<forall>q\<in>set held. pressed b q"
    and "\<forall>q\<in>set rel. released q"
  shows "(commits s (p0 # inside) = 0 \<and> currentState (run_fsm s (p0 # inside)) = TRIGGERED) \<and>
    (\<not> pressed b d \<longrightarrow>
       commits s (p0 # inside @ d # rel) = 0 \<and>
       outputMode (run_fsm s (p0 # inside @ d # rel)) = outputMode s \<and>
       currentState (run_fsm s (p0 # inside @ [d])) = RELEASE) \<and>
    (pressed b d \<longrightarrow>
       commits s (p0 # inside @ d # held @ rel) = 1 \<and>
       outputMode (run_fsm s (p0 # inside @ d # held @ rel)) = commit b (outputMode s) \<and>
       currentState (run_fsm s (p0 # inside @ d # held)) = RELEASE \<and>
       (rel \<noteq> [] \<longrightarrow> currentState (run_fsm s (p0 # inside @ d # held @ rel)) = IDLE)) \<and>
    (\<forall>s' p. currentState s' = RELEASE \<longrightarrow>
       (currentState (buttonFSM p s') = IDLE \<longleftrightarrow> released p))"
proof (intro conjI impI allI)
  show "commits s (p0 # inside) = 0"
    using assms(1-3) by (rule press_prefix(2))
  show "currentState (run_fsm s (p0 # inside)) = TRIGGERED"
    using press_prefix(1) [OF assms(1-3)] by simp
next
  assume n: "\<not> pressed b d"
  note sp = short_press [OF assms(1-3) assms(4) n assms(6)]
  from sp show "commits s (p0 # inside @ d # rel) = 0" by simp
  from sp show "outputMode (run_fsm s (p0 # inside @ d # rel)) = outputMode s" by simp
  from sp show "currentState (run_fsm s (p0 # inside @ [d])) = RELEASE" by simp
next
  assume y: "pressed b d"
  note lp = long_press [OF assms(1-3) assms(4) y assms(5) assms(6)]
  from lp show "commits s (p0 # inside @ d # held @ rel) = 1" by simp
  from lp show "outputMode (run_fsm s (p0 # inside @ d # held @ rel)) = commit b (outputMode s)"
    by simp
  from lp show "currentState (run_fsm s (p0 # inside @ d # held)) = RELEASE" by simp
  assume "rel \<noteq> []"
  with lp show "currentState (run_fsm s (p0 # inside @ d # held @ rel)) = IDLE" by simp
next
  fix s' :: fsm and p :: poll
  assume "currentState s' = RELEASE"
  then show "currentState (buttonFSM p s') = IDLE \<longleftrightarrow> released p"
    by (simp add: released_def)
qed

text \<open>
  An up press from slot 5 held for 250 ms and then let go commits once and ends in slot 0;
  a down press from slot 0 let go after 50 ms commits nothing.
\<close>

theorem debounce_single_press_witness:
  "commits fsm_init
     [\<lparr>up = False, down = True, now = 1000\<rparr>, \<lparr>up = False, down = True, now = 1050\<rparr>,
      \<lparr>up = False, down = False, now = 1201\<rparr>, \<lparr>up = False, down = False, now = 1202\<rparr>] = 0 \<and>
   commits (fsm_init\<lparr>outputMode := 5\<rparr>)
     [\<lparr>up = True, down = False, now = 1000\<rparr>, \<lparr>up = True, down = False, now = 1200\<rparr>,
      \<lparr>up = True, down = False, now = 1201\<rparr>, \<lparr>up = True, down = False, now = 1250\<rparr>,
      \<lparr>up = False, down = False, now = 1251\<rparr>] = 1 \<and>
   run_fsm (fsm_init\<lparr>outputMode := 5\<rparr>)
     [\<lparr>up = True, down = False, now = 1000\<rparr>, \<lparr>up = True, down = False, now = 1200\<rparr>,
      \<lparr>up = True, down = False, now = 1201\<rparr>, \<lparr>up = True, down = False, now = 1250\<rparr>,
      \<lparr>up = False, down = False, now = 1251\<rparr>]
     = \<lparr>currentState = IDLE, changeUP = True, timer = 1000, outputMode = 0\<rparr>"
  using
    debounce_single_press [of fsm_init False "\<lparr>up = False, down = True, now = 1000\<rparr>"
      "[\<lparr>up = False, down = True, now = 1050\<rparr>]" "\<lparr>up = False, down = False, now = 1201\<rparr>"
      "[]" "[\<lparr>up = False, down = False, now = 1202\<rparr>]"]
    debounce_single_press [of "fsm_init\<lparr>outputMode := 5\<rparr>" True
      "\<lparr>up = True, down = False, now = 1000\<rparr>"
      "[\<lparr>up = True, down = False, now = 1200\<rparr>]" "\<lparr>up = True, down = False, now = 1201\<rparr>"
      "[\<lparr>up = True, down = False, now = 1250\<rparr>]" "[\<lparr>up = False, down = False, now = 1251\<rparr>]"]
  by (simp add: fsm_init_def elapsed_def BTN_TIME_def pressed_def press_seen_def released_def
      mode_up_def SLOT_COUNT_def)

subsection \<open>The record codec\<close>

lemma parse_time_wire:
  "parse_time (ucast (drop_bit 24 t)) (ucast (drop_bit 16 t)) (ucast (drop_bit 8 t)) (ucast t) = (t::u32)"
  unfolding parse_time_def
proof (rule bit_word_eqI)
  fix n :: nat
  assume "n < LENGTH(32)"
  then have n: "n < 32" by simp
  let ?w = "push_bit 24 (ucast (ucast (drop_bit 24 t) :: u8)) OR
        push_bit 16 (ucast (ucast (drop_bit 16 t) :: u8)) OR
        push_bit 8 (ucast (ucast (drop_bit 8 t) :: u8)) OR ucast (ucast t :: u8) :: u32"
  consider "n < 8" | "8 \<le> n" "n < 16" | "16 \<le> n" "n < 24" | "24 \<le> n"
    by linarith
  then show "bit ?w n = bit t n"
  proof cases
    case 1
    then show ?thesis by (simp add: bit_simps)
  next
    case 2
    then show ?thesis by (auto simp: bit_simps)
  next
    case 3
    then show ?thesis by (auto simp: bit_simps)
  next
    case 4
    with n show ?thesis by (auto simp: bit_simps)
  qed
qed

lemma length_wire_frame: "length (wire_frame f) = 7"
  by (simp add: wire_frame_def)

lemma length_wire_frames: "length (concat (map wire_frame fs)) = 7 * length fs"
  by (induction fs) (simp_all add: length_wire_frame)

lemma nth_wire_frames:
  "i < length fs \<Longrightarrow> k < 7 \<Longrightarrow> concat (map wire_frame fs) ! (7 * i + k) = wire_frame (fs ! i) ! k"
proof (induction fs arbitrary: i)
  case Nil
  then show ?case by simp
next
  case (Cons f fs)
  show ?case
  proof (cases i)
    case 0
    with Cons.prems show ?thesis by (simp add: nth_append length_wire_frame)
  next
    case (Suc j)
    with Cons.prems have "j < length fs" by simp
    then have "concat (map wire_frame fs) ! (7 * j + k) = wire_frame (fs ! j) ! k"
      using Cons.prems(2) by (rule Cons.IH)
    with Suc show ?thesis by (simp add: nth_append length_wire_frame)
  qed
qed

lemma update7:
  assumes "b + 6 < length xs"
  shows "xs[b := x0, b + 1 := x1, b + 2 := x2, b + 3 := x3, b + 4 := x4, b + 5 := x5, b + 6 := x6]
    = take b xs @ [x0, x1, x2, x3, x4, x5, x6] @ drop (b + 7) xs"
  using assms
  by (intro nth_equalityI) (auto simp: nth_append nth_list_update nth_Cons' )

lemma fill_frameBuff_wire:
  assumes "unat (frameCount a) \<le> MAX_FRAMES" and "length fb = unat (frameCount a) * 7"
    and "fr \<le> unat (frameCount a)"
  shows "fill_frameBuff a fr fb =
    Some (take (fr * 7) fb @ concat (map wire_frame (map (frames a) [fr..<unat (frameCount a)])))"
  using assms
proof (induction "unat (frameCount a) - fr" arbitrary: fr fb)
  case 0
  then have "fr = unat (frameCount a)" by simp
  with "0.prems" show ?case by (subst fill_frameBuff.simps) simp
next
  case (Suc n)
  let ?fc = "unat (frameCount a)"
  let ?f = "frames a fr"
  from Suc.hyps(2) have lt: "fr < ?fc" by simp
  with Suc.prems(1) have fr20: "fr < 20" by (simp add: MAX_FRAMES_def)
  then have base: "(fr * FRAME_SIZE) mod 256 = fr * 7" by (simp add: FRAME_SIZE_def)
  from lt Suc.prems(2) have inb: "fr * 7 + 6 < length fb" by simp
  let ?fb = "take (fr * 7) fb @ wire_frame ?f @ drop (fr * 7 + 7) fb"
  have upd: "fb[fr * 7 := red ?f, fr * 7 + 1 := green ?f, fr * 7 + 2 := blue ?f,
               fr * 7 + 3 := ucast (drop_bit 24 (time ?f)),
               fr * 7 + 4 := ucast (drop_bit 16 (time ?f)),
               fr * 7 + 5 := ucast (drop_bit 8 (time ?f)),
               fr * 7 + 6 := ucast (time ?f)] = ?fb"
    using update7 [OF inb] by (simp add: wire_frame_def)
  have len: "length ?fb = ?fc * 7" using inb Suc.prems(2) by (simp add: length_wire_frame)
  have step: "fill_frameBuff a fr fb = fill_frameBuff a (fr + 1) ?fb"
    using lt fr20 inb base upd by (subst fill_frameBuff.simps) (simp add: MAX_FRAMES_def Let_def)
  have "n = ?fc - (fr + 1)" using Suc.hyps(2) by simp
  then have ih: "fill_frameBuff a (fr + 1) ?fb =
     Some (take ((fr + 1) * 7) ?fb @ concat (map wire_frame (map (frames a) [fr + 1..<?fc])))"
    using Suc.prems(1) len lt by (intro Suc.hyps(1)) simp_all
  have tk: "take ((fr + 1) * 7) ?fb = take (fr * 7) fb @ wire_frame ?f"
    using inb by (simp add: length_wire_frame)
  have ups: "[fr..<?fc] = fr # [fr + 1..<?fc]" using lt by (simp add: upt_conv_Cons)
  show ?case unfolding step ih tk ups by simp
qed

lemma frame_bytes_wire:
  assumes "unat (frameCount a) \<le> MAX_FRAMES"
  shows "frame_bytes junk a = Some (wire_payload a)"
  using fill_frameBuff_wire [OF assms, of "map junk [0..<unat (frameCount a) * FRAME_SIZE]" 0]
  by (simp add: frame_bytes_def wire_payload_def keyframes_def FRAME_SIZE_def)

lemma int_last: "i < n \<Longrightarrow> (int i = int n - 1) = (i = n - 1)"
  by auto

lemma save_frame_wire:
  assumes buff: "buff = s # c # concat (map wire_frame fs) @ rest"
    and len: "length fs = unat c" and c20: "unat c \<le> MAX_FRAMES" and i: "i < unat c"
  shows "save_frame buff i a =
    Some (if i = unat c - 1 then a\<lparr>frames := (frames a)(i := fs ! i), duration := time (fs ! i)\<rparr>
          else a\<lparr>frames := (frames a)(i := fs ! i)\<rparr>)"
proof -
  from i c20 have i20: "i < 20" by (simp add: MAX_FRAMES_def)
  then have base: "(i * FRAME_SIZE + 2) mod 256 = 7 * i + 2" by (simp add: FRAME_SIZE_def)
  have inb: "7 * i + 2 + 6 < length buff"
    using i len by (simp add: buff length_wire_frames)
  have nth: "buff ! (7 * i + 2 + k) = wire_frame (fs ! i) ! k" if "k < 7" for k
  proof -
    have "buff ! (7 * i + 2 + k) = (concat (map wire_frame fs) @ rest) ! (7 * i + k)"
      by (simp add: buff)
    also have "\<dots> = concat (map wire_frame fs) ! (7 * i + k)"
      using that i len by (simp add: nth_append length_wire_frames)
    also have "\<dots> = wire_frame (fs ! i) ! k"
      using that i len by (simp add: nth_wire_frames)
    finally show ?thesis .
  qed
  have n0: "buff ! (7 * i + 2) = red (fs ! i)" using nth [of 0] by (simp add: wire_frame_def)
  have n1: "buff ! (7 * i + 2 + 1) = green (fs ! i)" using nth [of 1] by (simp add: wire_frame_def)
  have n2: "buff ! (7 * i + 2 + 2) = blue (fs ! i)" using nth [of 2] by (simp add: wire_frame_def)
  have n3: "buff ! (7 * i + 2 + 3) = ucast (drop_bit 24 (time (fs ! i)))"
    using nth [of 3] by (simp add: wire_frame_def)
  have n4: "buff ! (7 * i + 2 + 4) = ucast (drop_bit 16 (time (fs ! i)))"
    using nth [of 4] by (simp add: wire_frame_def)
  have n5: "buff ! (7 * i + 2 + 5) = ucast (drop_bit 8 (time (fs ! i)))"
    using nth [of 5] by (simp add: wire_frame_def)
  have n6: "buff ! (7 * i + 2 + 6) = ucast (time (fs ! i))"
    using nth [of 6] by (simp add: wire_frame_def)
  have b1: "buff ! 1 = c" by (simp add: buff)
  have last: "(int i = int (unat c) - 1) = (i = unat c - 1)"
    using i int_last [of i "unat c"] by blast
  have f: "\<lparr>red = red (fs ! i), green = green (fs ! i), blue = blue (fs ! i),
      time = time (fs ! i)\<rparr> = fs ! i" by simp
  show ?thesis
    unfolding save_frame_def base Let_def n0 n1 n2 n3 n4 n5 n6 parse_time_wire b1 last f
    using inb i20 by (simp add: MAX_FRAMES_def)
qed

lemma save_loop_wire:
  assumes buff: "buff = s # c # concat (map wire_frame fs) @ rest"
    and len: "length fs = unat c" and c20: "unat c \<le> MAX_FRAMES" and i: "i \<le> unat c"
  shows "\<exists>a'. save_loop buff i a = Some a' \<and> frameCount a' = frameCount a \<and>
     (\<forall>j. frames a' j = (if i \<le> j \<and> j < unat c then fs ! j else frames a j)) \<and>
     duration a' = (if i < unat c then time (fs ! (unat c - 1)) else duration a)"
  using i
proof (induction "unat c - i" arbitrary: i a)
  case 0
  then have "i = unat c" by simp
  then show ?case by (subst save_loop.simps) (auto simp: buff)
next
  case (Suc n)
  from Suc.hyps(2) have lt: "i < unat c" by simp
  let ?a1 = "if i = unat c - 1 then a\<lparr>frames := (frames a)(i := fs ! i), duration := time (fs ! i)\<rparr>
          else a\<lparr>frames := (frames a)(i := fs ! i)\<rparr>"
  have sf: "save_frame buff i a = Some ?a1"
    using buff len c20 lt by (rule save_frame_wire)
  have step: "save_loop buff i a = save_loop buff (i + 1) ?a1"
    using lt sf by (subst save_loop.simps) (simp add: buff)
  have "n = unat c - (i + 1)" using Suc.hyps(2) by simp
  moreover have "i + 1 \<le> unat c" using lt by simp
  ultimately obtain a' where a': "save_loop buff (i + 1) ?a1 = Some a'"
      "frameCount a' = frameCount ?a1"
      "\<forall>j. frames a' j = (if i + 1 \<le> j \<and> j < unat c then fs ! j else frames ?a1 j)"
      "duration a' = (if i + 1 < unat c then time (fs ! (unat c - 1)) else duration ?a1)"
    using Suc.hyps(1) [of "i + 1" ?a1] by blast
  have "frameCount a' = frameCount a" using a'(2) by simp
  moreover have "\<forall>j. frames a' j = (if i \<le> j \<and> j < unat c then fs ! j else frames a j)"
    using a'(3) lt by auto
  moreover have "duration a' = (if i < unat c then time (fs ! (unat c - 1)) else duration a)"
    using a'(4) lt by (auto simp: not_less) 
  ultimately show ?case using step a'(1) by simp
qed

lemma parse_animation_wire:
  assumes "unat (frameCount r) \<le> MAX_FRAMES"
  shows "\<exists>a'. parse_animation a0 (slot # frameCount r # wire_payload r @ rest) = Some a' \<and>
     frameCount a' = frameCount r \<and>
     (\<forall>j. frames a' j = (if j < unat (frameCount r) then frames r j else frames a0 j)) \<and>
     duration a' = (if 0 < unat (frameCount r) then time (frames r (unat (frameCount r) - 1))
                    else duration a0)"
proof -
  let ?c = "frameCount r"
  let ?buff = "slot # ?c # concat (map wire_frame (keyframes r)) @ rest"
  have len: "length (keyframes r) = unat ?c" by (simp add: keyframes_def)
  obtain a' where a': "save_loop ?buff 0 (a0\<lparr>frameCount := ?c\<rparr>) = Some a'"
      "frameCount a' = frameCount (a0\<lparr>frameCount := ?c\<rparr>)"
      "\<forall>j. frames a' j = (if 0 \<le> j \<and> j < unat ?c then keyframes r ! j
                             else frames (a0\<lparr>frameCount := ?c\<rparr>) j)"
      "duration a' = (if 0 < unat ?c then time (keyframes r ! (unat ?c - 1))
                      else duration (a0\<lparr>frameCount := ?c\<rparr>))"
    using save_loop_wire [OF refl len assms, of 0 slot rest "a0\<lparr>frameCount := ?c\<rparr>"] by auto
  have "parse_animation a0 (slot # ?c # wire_payload r @ rest) = Some a'"
    using a'(1) by (simp add: parse_animation_def wire_payload_def)
  moreover have "frameCount a' = ?c" using a'(2) by simp
  moreover have "\<forall>j. frames a' j = (if j < unat ?c then frames r j else frames a0 j)"
    using a'(3) by (simp add: keyframes_def)
  moreover have "duration a' = (if 0 < unat ?c then time (frames r (unat ?c - 1)) else duration a0)"
    using a'(4) by (simp add: keyframes_def)
  ultimately show ?thesis by blast
qed

text \<open>
  C6. For a valid record \<open>r\<close> (between 1 and 20 keyframes, duration equal to the last
  timestamp): the bytes that \<^verbatim>\<open>handleDownloadRequest\<close> builds for \<open>r\<close> are the wire
  payload, seven bytes for each keyframe, whatever the frame buffer held before; with
  the two header bytes in front (and any bytes \<open>rest\<close> behind), the object that
  \<^verbatim>\<open>saveAnimationFromSerial\<close> builds from them has the frame count, the keyframes and
  the duration of \<open>r\<close>. The frames from index \<open>frameCount\<close> on are not touched: they
  keep what the local \<^verbatim>\<open>_a\<close> held before. Decoding into an object that already holds
  \<open>r\<close> gives \<open>r\<close> itself.
\<close>

theorem codec_round_trip:
  assumes "valid_animation r"
  shows "\<exists>fb a'. frame_bytes junk r = Some fb \<and> fb = wire_payload r \<and>
      length fb = unat (frameCount r) * FRAME_SIZE \<and>
      parse_animation a0 ([slot, frameCount r] @ fb @ rest) = Some a' \<and>
      frameCount a' = frameCount r \<and> keyframes a' = keyframes r \<and> duration a' = duration r \<and>
      (\<forall>j. unat (frameCount r) \<le> j \<longrightarrow> frames a' j = frames a0 j) \<and>
      parse_animation r ([slot, frameCount r] @ fb @ rest) = Some r"
proof -
  from assms have c20: "unat (frameCount r) \<le> MAX_FRAMES" and pos: "0 < unat (frameCount r)"
    and dur: "duration r = time (frames r (unat (frameCount r) - 1))"
    by (simp_all add: valid_animation_def)
  have fb: "frame_bytes junk r = Some (wire_payload r)" using c20 by (rule frame_bytes_wire)
  have len: "length (wire_payload r) = unat (frameCount r) * FRAME_SIZE"
    unfolding wire_payload_def length_wire_frames by (simp add: keyframes_def FRAME_SIZE_def)
  obtain a' where a': "parse_animation a0 (slot # frameCount r # wire_payload r @ rest) = Some a'"
      "frameCount a' = frameCount r"
      "\<forall>j. frames a' j = (if j < unat (frameCount r) then frames r j else frames a0 j)"
      "duration a' = duration r"
    using parse_animation_wire [OF c20, of a0 slot rest] pos dur by auto
  obtain r' where r': "parse_animation r (slot # frameCount r # wire_payload r @ rest) = Some r'"
      "frameCount r' = frameCount r"
      "\<forall>j. frames r' j = (if j < unat (frameCount r) then frames r j else frames r j)"
      "duration r' = duration r"
    using parse_animation_wire [OF c20, of r slot rest] pos dur by auto
  have "frames r' = frames r" using r'(3) by auto
  with r'(2,4) have "r' = r" by simp
  moreover have "keyframes a' = keyframes r" using a'(2,3) by (simp add: keyframes_def)
  ultimately show ?thesis using fb len a' r'(1) by simp
qed

theorem codec_round_trip_witness:
  "valid_animation \<lparr>frameCount = 1, frames = (\<lambda>_. \<lparr>red = 255, green = 0, blue = 0, time = 100\<rparr>),
      duration = 100\<rparr> \<and>
   parse_animation \<lparr>frameCount = 1, frames = (\<lambda>_. \<lparr>red = 255, green = 0, blue = 0, time = 100\<rparr>),
      duration = 100\<rparr> [2, 1, 255, 0, 0, 0, 0, 0, 100]
    = Some \<lparr>frameCount = 1, frames = (\<lambda>_. \<lparr>red = 255, green = 0, blue = 0, time = 100\<rparr>),
      duration = 100\<rparr>"
  using codec_round_trip [of "\<lparr>frameCount = 1,
      frames = (\<lambda>_. \<lparr>red = 255, green = 0, blue = 0, time = 100\<rparr>), duration = 100\<rparr>"
      "\<lambda>_. 0" "\<lparr>frameCount = 0, frames = (\<lambda>_. \<lparr>red = 0, green = 0, blue = 0, time = 0\<rparr>),
      duration = 0\<rparr>" 2 "[]"]
  by (auto simp: valid_animation_def MAX_FRAMES_def wire_payload_def keyframes_def wire_frame_def)

subsection \<open>The store\<close>

lemma from_le32_le32: "from_le32 (le32 t @ rest) = t"
  unfolding from_le32_def le32_def
proof (rule bit_word_eqI)
  fix n :: nat
  assume "n < LENGTH(32)"
  then have n: "n < 32" by simp
  let ?bs = "[ucast t, ucast (drop_bit 8 t), ucast (drop_bit 16 t), ucast (drop_bit 24 t) :: u8] @ rest"
  let ?w = "ucast (?bs ! 0) OR push_bit 8 (ucast (?bs ! 1)) OR push_bit 16 (ucast (?bs ! 2)) OR
     push_bit 24 (ucast (?bs ! 3)) :: u32"
  consider "n < 8" | "8 \<le> n" "n < 16" | "16 \<le> n" "n < 24" | "24 \<le> n"
    by linarith
  then show "bit ?w n = bit t n"
  proof cases
    case 1
    then show ?thesis by (simp add: bit_simps)
  next
    case 2
    then show ?thesis by (auto simp: bit_simps)
  next
    case 3
    then show ?thesis by (auto simp: bit_simps)
  next
    case 4
    with n show ?thesis by (auto simp: bit_simps)
  qed
qed

lemma length_frame_to_bytes: "length (frame_to_bytes f) = 8"
  by (simp add: frame_to_bytes_def le32_def)

lemma frame_from_to_bytes: "frame_from_bytes (frame_to_bytes f @ rest) = f"
proof -
  have "drop 4 (frame_to_bytes f @ rest) = le32 (time f) @ rest"
    by (simp add: frame_to_bytes_def)
  then show ?thesis
    by (simp add: frame_from_bytes_def from_le32_le32) (simp add: frame_to_bytes_def)
qed

lemma length_frames_bytes:
  "length (concat (map (\<lambda>i. frame_to_bytes (f i)) xs)) = 8 * length xs"
  by (induction xs) (simp_all add: length_frame_to_bytes)

lemma drop_frames_bytes:
  "i < n \<Longrightarrow> \<exists>rest. drop (8 * i) (concat (map (\<lambda>i. frame_to_bytes (f i)) [0..<n]) @ ys)
     = frame_to_bytes (f i) @ rest"
proof -
  assume "i < n"
  then obtain k where k: "n = i + Suc k"
    using less_imp_Suc_add by auto
  have "[0..<i + Suc k] = [0..<i] @ [i..<i + Suc k]"
    by (rule upt_add_eq_append) simp
  then have sp: "[0..<n] = [0..<i] @ i # [Suc i..<n]"
    using k by (simp add: upt_conv_Cons)
  have "drop (8 * i) (concat (map (\<lambda>i. frame_to_bytes (f i)) [0..<n]) @ ys)
      = frame_to_bytes (f i) @ concat (map (\<lambda>i. frame_to_bytes (f i)) [Suc i..<n]) @ ys"
    unfolding sp by (simp add: length_frames_bytes)
  then show ?thesis by blast
qed

lemma d4: "drop (4 + k) (w # x # y # z # zs) = drop k zs"
proof -
  have "4 + k = Suc (Suc (Suc (Suc k)))" by simp
  then show ?thesis by (simp only: drop_Suc_Cons)
qed

lemma length_to_bytes: "length (to_bytes a) = sizeof_animation"
  by (simp add: to_bytes_def length_frames_bytes le32_def MAX_FRAMES_def sizeof_animation_def)

lemma from_to_bytes: "from_bytes (to_bytes a @ rest) = in_memory a"
proof -
  let ?fs = "concat (map (\<lambda>i. frame_to_bytes (frames a i)) [0..<MAX_FRAMES])"
  have fr: "frame_from_bytes (take 8 (drop (4 + 8 * i) (to_bytes a @ rest))) = frames a i"
    if lt: "i < MAX_FRAMES" for i
  proof -
    obtain r where "drop (8 * i) (?fs @ le32 (duration a) @ rest) = frame_to_bytes (frames a i) @ r"
      using drop_frames_bytes [OF lt, of "\<lambda>i. frames a i" "le32 (duration a) @ rest"] by blast
    moreover have "drop (4 + 8 * i) (to_bytes a @ rest)
        = drop (8 * i) (?fs @ le32 (duration a) @ rest)"
      unfolding to_bytes_def by (simp only: append_Cons append_Nil append_assoc d4)
    ultimately have "drop (4 + 8 * i) (to_bytes a @ rest) = frame_to_bytes (frames a i) @ r"
      by (simp only:)
    then have "take 8 (drop (4 + 8 * i) (to_bytes a @ rest)) = frame_to_bytes (frames a i)"
      by (simp add: length_frame_to_bytes)
    then show ?thesis using frame_from_to_bytes [of "frames a i" "[]"] by simp
  qed
  have "drop (4 + 8 * MAX_FRAMES) (to_bytes a @ rest)
      = drop (8 * MAX_FRAMES) (?fs @ le32 (duration a) @ rest)"
    unfolding to_bytes_def by (simp only: append_Cons append_Nil append_assoc d4)
  then have du: "drop (4 + 8 * MAX_FRAMES) (to_bytes a @ rest) = le32 (duration a) @ rest"
    by (simp add: length_frames_bytes)
  have fc: "(to_bytes a @ rest) ! 0 = frameCount a"
    by (simp add: to_bytes_def)
  show ?thesis
    unfolding from_bytes_def in_memory_def du fc from_le32_le32
    using fr by (intro animation.equality) (auto simp: fun_eq_iff)
qed

lemma EEPROM_put_region: "map (EEPROM_put addr a e) [addr..<addr + sizeof_animation] = to_bytes a"
  by (intro nth_equalityI) (simp_all add: EEPROM_put_def length_to_bytes)

lemma EEPROM_put_outside:
  "x < addr \<or> addr + sizeof_animation \<le> x \<Longrightarrow> EEPROM_put addr a e x = e x"
  by (auto simp: EEPROM_put_def length_to_bytes)

lemma EEPROM_get_cong:
  "(\<And>x. addr \<le> x \<Longrightarrow> x < addr + sizeof_animation \<Longrightarrow> e1 x = e2 x) \<Longrightarrow>
   EEPROM_get addr e1 = EEPROM_get addr e2"
proof -
  assume "\<And>x. addr \<le> x \<Longrightarrow> x < addr + sizeof_animation \<Longrightarrow> e1 x = e2 x"
  then have "map e1 [addr..<addr + sizeof_animation] = map e2 [addr..<addr + sizeof_animation]"
    by simp
  then show ?thesis by (simp only: EEPROM_get_def)
qed

lemma EEPROM_get_put_same: "EEPROM_get addr (EEPROM_put addr a e) = in_memory a"
  using from_to_bytes [of a "[]"] by (simp add: EEPROM_get_def EEPROM_put_region)

lemma EEPROM_get_put_other:
  "addr + sizeof_animation \<le> addr' \<or> addr' + sizeof_animation \<le> addr \<Longrightarrow>
   EEPROM_get addr (EEPROM_put addr' a e) = EEPROM_get addr e"
  by (rule EEPROM_get_cong) (auto simp: EEPROM_put_outside)

lemma EEPROM_get_zero_store: "EEPROM_get addr zero_store = zero_animation"
proof -
  have m: "map zero_store [addr..<addr + sizeof_animation] = replicate sizeof_animation 0"
    by (intro nth_equalityI) (simp_all add: zero_store_def)
  have t: "from_le32 (drop n (replicate sizeof_animation 0)) = 0" if "n + 4 \<le> sizeof_animation" for n
    using that by (simp add: from_le32_def)
  show ?thesis
    unfolding EEPROM_get_def m from_bytes_def zero_animation_def
    by (intro animation.equality)
      (auto simp: fun_eq_iff frame_from_bytes_def zero_frame_def t sizeof_animation_def
        MAX_FRAMES_def from_le32_def)
qed


lemma in_memory_simps:
  "frameCount (in_memory a) = frameCount a"
  "duration (in_memory a) = duration a"
  "i < MAX_FRAMES \<Longrightarrow> frames (in_memory a) i = frames a i"
  by (simp_all add: in_memory_def)

lemma slot_disjoint: "s < t \<Longrightarrow> s * sizeof_animation + sizeof_animation \<le> t * sizeof_animation"
proof -
  assume "s < t"
  then have "Suc s * sizeof_animation \<le> t * sizeof_animation"
    by (intro mult_le_mono1) simp
  then show ?thesis by simp
qed

lemma EEPROM_get_put_slot:
  "EEPROM_get (t * sizeof_animation) (EEPROM_put (s * sizeof_animation) a e) =
     (if t = s then in_memory a else EEPROM_get (t * sizeof_animation) e)"
proof (cases "t = s")
  case True
  then show ?thesis by (simp add: EEPROM_get_put_same)
next
  case False
  then have "t < s \<or> s < t" by auto
  then have "t * sizeof_animation + sizeof_animation \<le> s * sizeof_animation \<or>
      s * sizeof_animation + sizeof_animation \<le> t * sizeof_animation"
    using slot_disjoint by blast
  then show ?thesis using False by (simp add: EEPROM_get_put_other)
qed

lemma write_slots_Suc:
  "write_slots f (Suc n) e = EEPROM_put (n * sizeof_animation) (f n) (write_slots f n e)"
  by (simp add: write_slots_def)

lemma write_slots_get:
  "s < n \<Longrightarrow> EEPROM_get (s * sizeof_animation) (write_slots f n e) = in_memory (f s)"
proof (induction n)
  case 0
  then show ?case by simp
next
  case (Suc n)
  show ?case
  proof (cases "s = n")
    case True
    then show ?thesis by (simp add: write_slots_Suc EEPROM_get_put_slot)
  next
    case False
    with Suc.prems have "s < n" by simp
    then show ?thesis using False Suc.IH by (simp add: write_slots_Suc EEPROM_get_put_slot)
  qed
qed

lemma write_slots_byte:
  "s < n \<Longrightarrow> x < sizeof_animation \<Longrightarrow>
   write_slots f n e (s * sizeof_animation + x) = to_bytes (f s) ! x"
proof (induction n)
  case 0
  then show ?case by simp
next
  case (Suc n)
  show ?case
  proof (cases "s = n")
    case True
    with Suc.prems(2) show ?thesis
      by (simp add: write_slots_Suc EEPROM_put_def length_to_bytes)
  next
    case False
    with Suc.prems have lt: "s < n" by simp
    then have "s * sizeof_animation + x < n * sizeof_animation"
      using slot_disjoint [OF lt] Suc.prems(2) by simp
    then show ?thesis
      using Suc.IH [OF lt Suc.prems(2)] by (simp add: write_slots_Suc EEPROM_put_outside)
  qed
qed

lemma in_memory_demo_record: "in_memory (demo_record s) = demo_record s"
  by (auto simp: in_memory_def demo_record_def fun_eq_iff)

lemma demo_store_get:
  "s < 6 \<Longrightarrow> EEPROM_get (s * sizeof_animation) demo_store = demo_record s"
  by (simp add: demo_store_def write_slots_get in_memory_demo_record)

subsection \<open>Uploads\<close>

lemma limit_not_143: "n * FRAME_SIZE + META_SIZE \<noteq> 143"
  unfolding FRAME_SIZE_def META_SIZE_def by presburger

lemma upload_loop_complete:
  assumes "upload_loop buf ov cnt r = (Complete, buf', ov', cnt', r')"
    and "2 \<le> cnt" and "cnt \<le> 143" and "cnt \<le> unat (buf ! 1) * FRAME_SIZE + META_SIZE"
    and "length buf = SERIAL_PACKET"
  shows "buf' ! 0 = buf ! 0 \<and> buf' ! 1 = buf ! 1 \<and> length buf' = SERIAL_PACKET \<and> ov' = ov \<and>
     cnt' = unat (buf ! 1) * FRAME_SIZE + META_SIZE \<and> cnt' \<le> SERIAL_PACKET"
  using assms
proof (induction buf ov cnt r rule: upload_loop.induct)
  case (1 localBuff over buffCount r)
  let ?limit = "unat (localBuff ! 1) * FRAME_SIZE + META_SIZE"
  show ?case
  proof (cases "buffCount < ?limit")
    case False
    with "1.prems" have eq: "buffCount = ?limit" by simp
    with limit_not_143 [of "unat (localBuff ! 1)"] "1.prems"(3)
    have "buffCount \<le> 142" by simp
    moreover from False "1.prems"(1)
    have "buf' = localBuff \<and> ov' = over \<and> cnt' = buffCount"
      by (subst (asm) upload_loop.simps) simp
    ultimately show ?thesis using eq "1.prems"(5) by (simp add: SERIAL_PACKET_def)
  next
    case True
    from True "1.prems"(1) obtain data r1 where rb: "read_byte r = Some (data, r1)"
      by (subst (asm) upload_loop.simps) (auto split: option.splits)
    from True "1.prems"(1) rb have le: "buffCount \<le> SERIAL_PACKET"
      by (subst (asm) upload_loop.simps) (auto split: if_splits)
    show ?thesis
    proof (cases "buffCount < length localBuff")
      case inb: True
      let ?b = "localBuff[buffCount := data]"
      from inb "1.prems"(5) have c141: "buffCount < 142" by (simp add: SERIAL_PACKET_def)
      then have md: "(buffCount + 1) mod 256 = buffCount + 1" by simp
      have b1: "?b ! 1 = localBuff ! 1" and b0: "?b ! 0 = localBuff ! 0"
        using "1.prems"(2) by simp_all
      have rec: "upload_loop ?b over (buffCount + 1) r1 = (Complete, buf', ov', cnt', r')"
        using True rb le inb "1.prems"(1) md by (subst (asm) upload_loop.simps) simp
      have "buf' ! 0 = ?b ! 0 \<and> buf' ! 1 = ?b ! 1 \<and> length buf' = SERIAL_PACKET \<and> ov' = over \<and>
        cnt' = unat (?b ! 1) * FRAME_SIZE + META_SIZE \<and> cnt' \<le> SERIAL_PACKET"
        using "1.IH"(1) [OF True rb refl le inb] rec md True c141 "1.prems"(2,5) b1
        by simp
      then show ?thesis using b0 b1 by simp
    next
      case oob: False
      with le "1.prems"(5) have c142: "buffCount = 142" by (simp add: SERIAL_PACKET_def)
      then have md: "(buffCount + 1) mod 256 = 143" by simp
      have rec: "upload_loop localBuff (over @ [(buffCount, data)]) 143 r1
          = (Complete, buf', ov', cnt', r')"
        using True rb le oob "1.prems"(1) md by (subst (asm) upload_loop.simps) simp
      have lim: "143 \<le> ?limit" using True c142 by simp
      have "cnt' = ?limit \<and> cnt' \<le> SERIAL_PACKET"
        using "1.IH"(2) [OF True rb refl le oob] rec md lim "1.prems"(5) by simp
      with lim have False by (simp add: SERIAL_PACKET_def)
      then show ?thesis ..
    qed
  qed
qed

lemma save_loop_total:
  assumes "7 * unat (buff ! 1) + 2 \<le> length buff" and "unat (buff ! 1) \<le> MAX_FRAMES"
    and "i \<le> unat (buff ! 1)"
  shows "\<exists>a'. save_loop buff i a = Some a' \<and> frameCount a' = frameCount a"
  using assms(3)
proof (induction "unat (buff ! 1) - i" arbitrary: i a)
  case 0
  then show ?case by (subst save_loop.simps) simp
next
  case (Suc n)
  from Suc.hyps(2) have lt: "i < unat (buff ! 1)" by simp
  with assms(2) have i20: "i < 20" by (simp add: MAX_FRAMES_def)
  then have base: "(i * FRAME_SIZE + 2) mod 256 = 7 * i + 2" by (simp add: FRAME_SIZE_def)
  have inb: "7 * i + 2 + 6 < length buff" using lt assms(1) by simp
  obtain a1 where a1: "save_frame buff i a = Some a1" "frameCount a1 = frameCount a"
    unfolding save_frame_def base Let_def using inb i20 by (simp add: MAX_FRAMES_def)
  have step: "save_loop buff i a = save_loop buff (i + 1) a1"
    using lt a1(1) by (subst save_loop.simps) simp
  have "n = unat (buff ! 1) - (i + 1)" using Suc.hyps(2) by simp
  moreover have "i + 1 \<le> unat (buff ! 1)" using lt by simp
  ultimately obtain a' where "save_loop buff (i + 1) a1 = Some a'" "frameCount a' = frameCount a1"
    using Suc.hyps(1) [of "i + 1" a1] by blast
  with step a1(2) show ?case by simp
qed

lemma upload_received:
  assumes rcv: "upload_loop ((map (junk_localBuff g) [0..<SERIAL_PACKET])[0 := b0, 1 := b1])
            [] META_SIZE r1 = (Complete, buf, ov, cnt, r2)"
  shows "buf ! 0 = b0 \<and> buf ! 1 = b1 \<and> length buf = SERIAL_PACKET \<and> ov = [] \<and>
     cnt = unat b1 * FRAME_SIZE + META_SIZE \<and> unat b1 \<le> MAX_FRAMES"
proof -
  let ?b = "(map (junk_localBuff g) [0..<SERIAL_PACKET])[0 := b0, 1 := b1]"
  have b: "?b ! 0 = b0" "?b ! 1 = b1" "length ?b = SERIAL_PACKET"
    by (simp_all add: SERIAL_PACKET_def)
  have "buf ! 0 = ?b ! 0 \<and> buf ! 1 = ?b ! 1 \<and> length buf = SERIAL_PACKET \<and> ov = [] \<and>
     cnt = unat (?b ! 1) * FRAME_SIZE + META_SIZE \<and> cnt \<le> SERIAL_PACKET"
    using rcv b by (intro upload_loop_complete [of ?b "[]" META_SIZE r1 buf ov cnt r2])
      (simp_all add: META_SIZE_def)
  then have *: "buf ! 0 = b0 \<and> buf ! 1 = b1 \<and> length buf = SERIAL_PACKET \<and> ov = [] \<and>
     cnt = unat b1 * FRAME_SIZE + META_SIZE \<and> cnt \<le> SERIAL_PACKET"
    using b by simp
  then have "unat b1 * 7 + 2 \<le> 142"
    by (simp add: FRAME_SIZE_def META_SIZE_def SERIAL_PACKET_def)
  then have "unat b1 \<le> MAX_FRAMES" by (simp add: MAX_FRAMES_def)
  with * show ?thesis by simp
qed

lemma upload_success:
  assumes h0: "read_byte (rx d) = Some (b0, r0)" and h1: "read_byte r0 = Some (b1, r1)"
    and rcv: "upload_loop ((map (junk_localBuff g) [0..<SERIAL_PACKET])[0 := b0, 1 := b1])
            [] META_SIZE r1 = (Complete, buf, ov, cnt, r2)"
    and ack: "waitForAck_loop 1000 0 r2 = (True, r3)"
  shows "\<exists>a. parse_animation (junk_a g) buf = Some a \<and> frameCount a = b1 \<and>
     handleUploadRequest g d =
       (Returned, d\<lparr>rx := r3,
          trace := trace d @ map Sent (take cnt buf) @ [Ack True] @ println ''Done'',
          EEPROM := EEPROM_put (unat b0 * sizeof_animation) a (EEPROM d)\<rparr>)"
proof -
  note rc = upload_received [OF rcv]
  from rc have len: "7 * unat (buf ! 1) + 2 \<le> length buf"
    by (simp add: MAX_FRAMES_def SERIAL_PACKET_def)
  obtain a where a: "save_loop buf 0 ((junk_a g)\<lparr>frameCount := buf ! 1\<rparr>) = Some a"
     "frameCount a = frameCount ((junk_a g)\<lparr>frameCount := buf ! 1\<rparr>)"
    using save_loop_total [OF len, of 0 "(junk_a g)\<lparr>frameCount := buf ! 1\<rparr>"] rc by auto
  have pa: "parse_animation (junk_a g) buf = Some a"
    using a(1) rc by (simp add: parse_animation_def SERIAL_PACKET_def)
  have "handleUploadRequest g d =
       (Returned, d\<lparr>rx := r3,
          trace := trace d @ map Sent (take cnt buf) @ [Ack True] @ println ''Done'',
          EEPROM := EEPROM_put (unat b0 * sizeof_animation) a (EEPROM d)\<rparr>)"
    using h0 h1 rcv ack pa rc
    by (simp add: handleUploadRequest_def waitForAck_def emit_def saveAnimationFromSerial_def)
  with pa a(2) rc show ?thesis by simp
qed

lemma upload_ack_fail:
  assumes h0: "read_byte (rx d) = Some (b0, r0)" and h1: "read_byte r0 = Some (b1, r1)"
    and rcv: "upload_loop ((map (junk_localBuff g) [0..<SERIAL_PACKET])[0 := b0, 1 := b1])
            [] META_SIZE r1 = (Complete, buf, ov, cnt, r2)"
    and ack: "waitForAck_loop 1000 0 r2 = (False, r3)"
  shows "handleUploadRequest g d =
       (Restart, d\<lparr>rx := r3,
          trace := trace d @ map Sent (take cnt buf) @ println ''ACK Fail'' @ [Ack False]\<rparr>)"
  using h0 h1 rcv ack upload_received [OF rcv]
  by (simp add: handleUploadRequest_def waitForAck_def emit_def)

lemma upload_store_needs_return:
  "fst (handleUploadRequest g d) \<noteq> Returned \<Longrightarrow> EEPROM (snd (handleUploadRequest g d)) = EEPROM d"
  by (auto simp: handleUploadRequest_def waitForAck_def emit_def
      split: option.splits prod.splits received.splits bool.splits)

text \<open>
  C3. An upload that has received all the bytes its header declares and has echoed them,
  and whose wait for the acknowledgement then fails (a byte other than \<^verbatim>\<open>0xff\<close>, or
  more than 1000 ms without a byte): \<^verbatim>\<open>handleUploadRequest\<close> ends in
  \<^verbatim>\<open>resetFunc()\<close>, the restart, and the EEPROM is as it was before. The device has
  sent the echo and the text "ACK Fail". More generally, whenever
  \<^verbatim>\<open>handleUploadRequest\<close> does not return normally the EEPROM is unchanged: the only
  write stands behind the successful acknowledgement.
\<close>

theorem upload_ack_failure_restarts:
  assumes "read_byte (rx d) = Some (b0, r0)" and "read_byte r0 = Some (b1, r1)"
    and "upload_loop ((map (junk_localBuff g) [0..<SERIAL_PACKET])[0 := b0, 1 := b1])
            [] META_SIZE r1 = (Complete, buf, ov, cnt, r2)"
    and "\<not> fst (waitForAck_loop 1000 0 r2)"
  shows "fst (handleUploadRequest g d) = Restart \<and>
     EEPROM (snd (handleUploadRequest g d)) = EEPROM d \<and>
     trace (snd (handleUploadRequest g d)) =
       trace d @ map Sent (take cnt buf) @ println ''ACK Fail'' @ [Ack False] \<and>
     (\<forall>g' d'. fst (handleUploadRequest g' d') \<noteq> Returned \<longrightarrow>
        EEPROM (snd (handleUploadRequest g' d')) = EEPROM d')"
proof -
  obtain r3 where "waitForAck_loop 1000 0 r2 = (False, r3)"
    using assms(4) by (cases "waitForAck_loop 1000 0 r2") auto
  from upload_ack_fail [OF assms(1-3) this]
  have "handleUploadRequest g d =
       (Restart, d\<lparr>rx := r3,
          trace := trace d @ map Sent (take cnt buf) @ println ''ACK Fail'' @ [Ack False]\<rparr>)" .
  then show ?thesis using upload_store_needs_return by simp
qed

theorem upload_ack_failure_restarts_witness:
  "fst (handleUploadRequest zero_stack
      ((power_on zero_store)
         \<lparr>rx := [Byte 2, Byte 1, Byte 255, Byte 0, Byte 0, Byte 0, Byte 0, Byte 0, Byte 100,
                 Byte 0]\<rparr>)) = Restart \<and>
   EEPROM (snd (handleUploadRequest zero_stack
      ((power_on zero_store)
         \<lparr>rx := [Byte 2, Byte 1, Byte 255, Byte 0, Byte 0, Byte 0, Byte 0, Byte 0, Byte 100,
                 Quiet 1001]\<rparr>))) = zero_store"
proof -
  let ?start = "(map (junk_localBuff zero_stack) [0..<SERIAL_PACKET])[0 := 2, 1 := 1]"
  let ?buf = "?start[2 := 255, 3 := 0, 4 := 0, 5 := 0, 6 := 0, 7 := 0, 8 := 100]"
  have rcv: "upload_loop ?start [] META_SIZE
      ([Byte 255, Byte 0, Byte 0, Byte 0, Byte 0, Byte 0, Byte 100] @ r) = (Complete, ?buf, [], 9, r)"
    for r
    by (simp add: upload_loop.simps META_SIZE_def FRAME_SIZE_def SERIAL_PACKET_def)
  let ?d = "\<lambda>r. (power_on zero_store)
         \<lparr>rx := [Byte 2, Byte 1, Byte 255, Byte 0, Byte 0, Byte 0, Byte 0, Byte 0, Byte 100] @ r\<rparr>"
  have a: "read_byte (rx (?d r)) = Some (2, [Byte 1, Byte 255, Byte 0, Byte 0, Byte 0, Byte 0, Byte 0, Byte 100] @ r)" for r
    by simp
  have b: "read_byte ([Byte 1, Byte 255, Byte 0, Byte 0, Byte 0, Byte 0, Byte 0, Byte 100] @ r)
     = Some (1, [Byte 255, Byte 0, Byte 0, Byte 0, Byte 0, Byte 0, Byte 100] @ r)" for r
    by simp
  have n1: "\<not> fst (waitForAck_loop 1000 0 [Byte 0])" by simp
  have n2: "\<not> fst (waitForAck_loop 1000 0 [Quiet 1001])" by simp
  show ?thesis
    using upload_ack_failure_restarts [OF a b rcv n1, of ]
      upload_ack_failure_restarts [OF a b rcv n2]
    by (simp add: power_on_def)
qed

text \<open>
  C5. A command whose code starts with a digit \<open>c\<close> from \<^verbatim>\<open>'0'\<close> to \<^verbatim>\<open>'5'\<close>,
  followed by an upload that receives its header bytes \<open>b0\<close> and \<open>b1\<close> and all the
  bytes the header declares, and by the acknowledgement \<^verbatim>\<open>0xff\<close> in time: the object
  parsed from the buffer is written at \<^verbatim>\<open>b0 * sizeof(animation)\<close>, where \<open>b0\<close> is byte
  0 of the buffer. The digit appears in the echo of the command and nowhere else: it does
  not enter the address.
\<close>

theorem upload_slot_from_payload:
  assumes "c = 48 \<or> c = 49 \<or> c = 50 \<or> c = 51 \<or> c = 52 \<or> c = 53"
    and "readStringUntil 45 0 (rx d) = (c # code, r)"
    and "read_byte r = Some (b0, r0)" and "read_byte r0 = Some (b1, r1)"
    and "upload_loop ((map (junk_localBuff g) [0..<SERIAL_PACKET])[0 := b0, 1 := b1])
            [] META_SIZE r1 = (Complete, buf, ov, cnt, r2)"
    and "waitForAck_loop 1000 0 r2 = (True, r3)"
  shows "\<exists>a. parse_animation (junk_a g) buf = Some a \<and> frameCount a = b1 \<and>
     buf ! 0 = b0 \<and>
     handleSerial g d =
       (Returned, d\<lparr>rx := r3,
          trace := trace d @ print ''ready_'' @ map Sent (c # code) @ crlf @
                   map Sent (take cnt buf) @ [Ack True] @ println ''Done'',
          EEPROM := EEPROM_put (unat b0 * sizeof_animation) a (EEPROM d)\<rparr>)"
proof -
  let ?d1 = "emit (print ''ready_'' @ map Sent (c # code) @ crlf) (d\<lparr>rx := r\<rparr>)"
  have disp: "handleSerial g d = handleUploadRequest g ?d1"
    using assms(1,2) by (auto simp: handleSerial_def Let_def)
  have h0: "read_byte (rx ?d1) = Some (b0, r0)" using assms(3) by (simp add: emit_def)
  obtain a where a: "parse_animation (junk_a g) buf = Some a" "frameCount a = b1"
    "handleUploadRequest g ?d1 =
       (Returned, ?d1\<lparr>rx := r3,
          trace := trace ?d1 @ map Sent (take cnt buf) @ [Ack True] @ println ''Done'',
          EEPROM := EEPROM_put (unat b0 * sizeof_animation) a (EEPROM ?d1)\<rparr>)"
    using upload_success [OF h0 assms(4,5,6)] by blast
  have "buf ! 0 = b0" using upload_received [OF assms(5)] by simp
  with a disp show ?thesis by (simp add: emit_def)
qed

text \<open>
  The command \<^verbatim>\<open>"4-"\<close> with a payload for slot 2: slot 4 keeps its content and slot 2
  receives the record.
\<close>

theorem upload_slot_from_payload_witness:
  "frameCount (EEPROM_get (4 * sizeof_animation) (EEPROM (snd (handleSerial zero_stack
      ((power_on demo_store)
         \<lparr>rx := [Byte 52, Byte 45, Byte 2, Byte 1, Byte 255, Byte 0, Byte 0, Byte 0, Byte 0,
                 Byte 0, Byte 100, Byte 255]\<rparr>))))) = 5 \<and>
   frameCount (EEPROM_get (2 * sizeof_animation) demo_store) = 3 \<and>
   frameCount (EEPROM_get (2 * sizeof_animation) (EEPROM (snd (handleSerial zero_stack
      ((power_on demo_store)
         \<lparr>rx := [Byte 52, Byte 45, Byte 2, Byte 1, Byte 255, Byte 0, Byte 0, Byte 0, Byte 0,
                 Byte 0, Byte 100, Byte 255]\<rparr>))))) = 1"
proof -
  let ?start = "(map (junk_localBuff zero_stack) [0..<SERIAL_PACKET])[0 := 2, 1 := 1]"
  let ?buf = "?start[2 := 255, 3 := 0, 4 := 0, 5 := 0, 6 := 0, 7 := 0, 8 := 100]"
  let ?d = "(power_on demo_store)
         \<lparr>rx := [Byte 52, Byte 45, Byte 2, Byte 1, Byte 255, Byte 0, Byte 0, Byte 0, Byte 0,
                 Byte 0, Byte 100, Byte 255]\<rparr>"
  have c: "(52 :: u8) = 48 \<or> (52 :: u8) = 49 \<or> (52 :: u8) = 50 \<or> (52 :: u8) = 51 \<or>
      (52 :: u8) = 52 \<or> (52 :: u8) = 53" by simp
  have cmd: "readStringUntil 45 0 (rx ?d) = ([52], [Byte 2, Byte 1, Byte 255, Byte 0, Byte 0,
      Byte 0, Byte 0, Byte 0, Byte 100, Byte 255])" by simp
  have h0: "read_byte [Byte 2, Byte 1, Byte 255, Byte 0, Byte 0,
      Byte 0, Byte 0, Byte 0, Byte 100, Byte 255] = Some (2, [Byte 1, Byte 255, Byte 0, Byte 0,
      Byte 0, Byte 0, Byte 0, Byte 100, Byte 255])" by simp
  have h1: "read_byte [Byte 1, Byte 255, Byte 0, Byte 0,
      Byte 0, Byte 0, Byte 0, Byte 100, Byte 255] = Some (1, [Byte 255, Byte 0, Byte 0,
      Byte 0, Byte 0, Byte 0, Byte 100, Byte 255])" by simp
  have rcv: "upload_loop ?start [] META_SIZE
      [Byte 255, Byte 0, Byte 0, Byte 0, Byte 0, Byte 0, Byte 100, Byte 255]
       = (Complete, ?buf, [], 9, [Byte 255])"
    by (simp add: upload_loop.simps META_SIZE_def FRAME_SIZE_def SERIAL_PACKET_def)
  have ack: "waitForAck_loop 1000 0 [Byte 255] = (True, [])" by simp
  obtain a where a: "frameCount a = 1"
     "handleSerial zero_stack ?d =
       (Returned, ?d\<lparr>rx := [],
          trace := trace ?d @ print ''ready_'' @ map Sent [52] @ crlf @
                   map Sent (take 9 ?buf) @ [Ack True] @ println ''Done'',
          EEPROM := EEPROM_put (unat (2 :: u8) * sizeof_animation) a (EEPROM ?d)\<rparr>)"
    using upload_slot_from_payload [OF c cmd h0 h1 rcv ack] by blast
  have st: "EEPROM (snd (handleSerial zero_stack ?d)) = EEPROM_put (2 * sizeof_animation) a demo_store"
    using a(2) by (simp add: power_on_def)
  have "EEPROM_get (4 * sizeof_animation) (EEPROM_put (2 * sizeof_animation) a demo_store)
      = demo_record 4"
    by (simp add: EEPROM_get_put_slot demo_store_get)
  moreover have "EEPROM_get (2 * sizeof_animation) (EEPROM_put (2 * sizeof_animation) a demo_store)
      = in_memory a"
    by (simp add: EEPROM_get_put_slot)
  moreover have "EEPROM_get (2 * sizeof_animation) demo_store = demo_record 2"
    by (simp add: demo_store_get)
  ultimately show ?thesis
    unfolding st using a(1) by (simp add: in_memory_simps demo_record_def)
qed

text \<open>
  C10. An upload whose header declares \<open>frameCount = 0\<close>: no keyframe byte is read (the
  wait for the acknowledgement gets the line as the header left it), the two header
  bytes are echoed, and on \<^verbatim>\<open>0xff\<close> the device answers "Done" and writes, at the slot
  named by byte 0, the object that the local \<^verbatim>\<open>_a\<close> held with \<open>frameCount\<close> set to
  0. Read back from the store, that slot now holds a record with frame count 0, with the
  total time and the twenty keyframe entries that the stack held, which is not a valid
  record; every other slot reads as before.
\<close>

theorem upload_zero_frames_is_stored:
  assumes "read_byte (rx d) = Some (s, r0)" and "read_byte r0 = Some (0, r1)"
    and "waitForAck_loop 1000 0 r1 = (True, r2)"
  shows "handleUploadRequest g d =
       (Returned, d\<lparr>rx := r2,
          trace := trace d @ [Sent s, Sent 0, Ack True] @ println ''Done'',
          EEPROM := EEPROM_put (unat s * sizeof_animation) ((junk_a g)\<lparr>frameCount := 0\<rparr>)
                      (EEPROM d)\<rparr>) \<and>
     \<not> valid_animation ((junk_a g)\<lparr>frameCount := 0\<rparr>) \<and>
     duration ((junk_a g)\<lparr>frameCount := 0\<rparr>) = duration (junk_a g) \<and>
     frameCount (EEPROM_get (unat s * sizeof_animation)
        (EEPROM (snd (handleUploadRequest g d)))) = 0 \<and>
     duration (EEPROM_get (unat s * sizeof_animation)
        (EEPROM (snd (handleUploadRequest g d)))) = duration (junk_a g) \<and>
     (\<forall>i<MAX_FRAMES. frames (EEPROM_get (unat s * sizeof_animation)
        (EEPROM (snd (handleUploadRequest g d)))) i = frames (junk_a g) i) \<and>
     \<not> valid_animation (EEPROM_get (unat s * sizeof_animation)
        (EEPROM (snd (handleUploadRequest g d)))) \<and>
     (\<forall>t. t \<noteq> unat s \<longrightarrow>
        EEPROM_get (t * sizeof_animation) (EEPROM (snd (handleUploadRequest g d))) =
        EEPROM_get (t * sizeof_animation) (EEPROM d))"
proof -
  let ?start = "(map (junk_localBuff g) [0..<SERIAL_PACKET])[0 := s, 1 := 0]"
  let ?a = "(junk_a g)\<lparr>frameCount := 0\<rparr>"
  have rcv: "upload_loop ?start [] META_SIZE r1 = (Complete, ?start, [], META_SIZE, r1)"
    by (subst upload_loop.simps) (simp add: SERIAL_PACKET_def)
  have tk: "take META_SIZE ?start = [s, 0]"
    by (simp add: META_SIZE_def SERIAL_PACKET_def take_Suc_conv_app_nth
        numeral_2_eq_2 upt_conv_Cons list_update_code)
  have pa: "parse_animation (junk_a g) ?start = Some ?a"
    by (simp add: parse_animation_def SERIAL_PACKET_def save_loop.simps)
  obtain a where a: "parse_animation (junk_a g) ?start = Some a"
     "handleUploadRequest g d =
       (Returned, d\<lparr>rx := r2,
          trace := trace d @ map Sent (take META_SIZE ?start) @ [Ack True] @ println ''Done'',
          EEPROM := EEPROM_put (unat s * sizeof_animation) a (EEPROM d)\<rparr>)"
    using upload_success [OF assms(1,2) rcv assms(3)] by blast
  from a(1) pa have "a = ?a" by simp
  with a(2) tk have res: "handleUploadRequest g d =
       (Returned, d\<lparr>rx := r2,
          trace := trace d @ [Sent s, Sent 0, Ack True] @ println ''Done'',
          EEPROM := EEPROM_put (unat s * sizeof_animation) ?a (EEPROM d)\<rparr>)"
    by simp
  then have st: "EEPROM (snd (handleUploadRequest g d))
      = EEPROM_put (unat s * sizeof_animation) ?a (EEPROM d)"
    by simp
  have rb: "EEPROM_get (unat s * sizeof_animation)
      (EEPROM_put (unat s * sizeof_animation) ?a (EEPROM d)) = in_memory ?a"
    by (rule EEPROM_get_put_same)
  have other: "EEPROM_get (t * sizeof_animation)
      (EEPROM_put (unat s * sizeof_animation) ?a (EEPROM d))
        = EEPROM_get (t * sizeof_animation) (EEPROM d)" if "t \<noteq> unat s" for t
    using that by (simp add: EEPROM_get_put_slot)
  have inv: "\<not> valid_animation (in_memory ?a)" "\<not> valid_animation ?a"
    by (simp_all add: valid_animation_def in_memory_simps)
  show ?thesis
    unfolding st rb using res inv other by (simp add: in_memory_simps)
qed

text \<open>
  Slot 3 of \<open>demo_store\<close> holds four frames. After the upload of the header
  \<^verbatim>\<open>[3, 0]\<close> from a stack that held the total time 32765, it holds none, with that
  total time.
\<close>

theorem upload_zero_frames_is_stored_witness:
  "frameCount (EEPROM_get (3 * sizeof_animation) demo_store) = 4 \<and>
   duration (EEPROM_get (3 * sizeof_animation) demo_store) = 0 \<and>
   fst (handleUploadRequest demo_stack
      ((power_on demo_store)\<lparr>rx := [Byte 3, Byte 0, Byte 255]\<rparr>)) = Returned \<and>
   trace (snd (handleUploadRequest demo_stack
      ((power_on demo_store)\<lparr>rx := [Byte 3, Byte 0, Byte 255]\<rparr>)))
     = [Sent 3, Sent 0, Ack True] @ println ''Done'' \<and>
   frameCount (EEPROM_get (3 * sizeof_animation) (EEPROM (snd (handleUploadRequest demo_stack
      ((power_on demo_store)\<lparr>rx := [Byte 3, Byte 0, Byte 255]\<rparr>))))) = 0 \<and>
   duration (EEPROM_get (3 * sizeof_animation) (EEPROM (snd (handleUploadRequest demo_stack
      ((power_on demo_store)\<lparr>rx := [Byte 3, Byte 0, Byte 255]\<rparr>))))) = 32765 \<and>
   frameCount (EEPROM_get (2 * sizeof_animation) (EEPROM (snd (handleUploadRequest demo_stack
      ((power_on demo_store)\<lparr>rx := [Byte 3, Byte 0, Byte 255]\<rparr>))))) = 3"
proof -
  let ?d = "(power_on demo_store)\<lparr>rx := [Byte 3, Byte 0, Byte 255]\<rparr>"
  let ?e = "EEPROM (snd (handleUploadRequest demo_stack ?d))"
  have h0: "read_byte (rx ?d) = Some (3, [Byte 0, Byte 255])" by simp
  have h1: "read_byte [Byte 0, Byte 255] = Some (0, [Byte 255])" by simp
  have ack: "waitForAck_loop 1000 0 [Byte 255] = (True, [])" by simp
  note T = upload_zero_frames_is_stored [OF h0 h1 ack, of demo_stack]
  have u3: "unat (3 :: u8) = 3" by simp
  have b3: "frameCount (EEPROM_get (3 * sizeof_animation) demo_store) = 4"
    and b3d: "duration (EEPROM_get (3 * sizeof_animation) demo_store) = 0"
    and b2: "EEPROM_get (2 * sizeof_animation) demo_store = demo_record 2"
    by (simp_all add: demo_store_get demo_record_def)
  from T have res: "handleUploadRequest demo_stack ?d =
       (Returned, ?d\<lparr>rx := [],
          trace := trace ?d @ [Sent 3, Sent 0, Ack True] @ println ''Done'',
          EEPROM := EEPROM_put (unat (3 :: u8) * sizeof_animation)
                      ((junk_a demo_stack)\<lparr>frameCount := 0\<rparr>) (EEPROM ?d)\<rparr>)"
    by blast
  from res have r: "fst (handleUploadRequest demo_stack ?d) = Returned"
    and tr: "trace (snd (handleUploadRequest demo_stack ?d))
       = [Sent 3, Sent 0, Ack True] @ println ''Done''"
    by (simp_all add: power_on_def)
  from T have "frameCount (EEPROM_get (unat (3 :: u8) * sizeof_animation) ?e) = 0"
    by blast
  then have fc: "frameCount (EEPROM_get (3 * sizeof_animation) ?e) = 0"
    unfolding u3 .
  from T have "duration (EEPROM_get (unat (3 :: u8) * sizeof_animation) ?e)
      = duration (junk_a demo_stack)"
    by blast
  then have du: "duration (EEPROM_get (3 * sizeof_animation) ?e) = 32765"
    unfolding u3 by (simp add: demo_stack_def)
  from T have "\<forall>t. t \<noteq> unat (3 :: u8) \<longrightarrow>
        EEPROM_get (t * sizeof_animation) ?e = EEPROM_get (t * sizeof_animation) (EEPROM ?d)"
    by blast
  then have "EEPROM_get (2 * sizeof_animation) ?e = EEPROM_get (2 * sizeof_animation) (EEPROM ?d)"
    unfolding u3 by simp
  then have o2: "frameCount (EEPROM_get (2 * sizeof_animation) ?e) = 3"
    using b2 by (simp add: power_on_def demo_record_def)
  show ?thesis
    using b3 b3d r tr fc du o2 by (intro conjI)
qed

lemma upload_loop_store:
  assumes "2 \<le> cnt" and "cnt + length body \<le> length buf" and "length buf = SERIAL_PACKET"
    and "cnt + length body \<le> unat (buf ! 1) * FRAME_SIZE + META_SIZE"
  shows "upload_loop buf ov cnt (map Byte body @ r) =
     upload_loop (take cnt buf @ body @ drop (cnt + length body) buf) ov (cnt + length body) r"
  using assms
proof (induction body arbitrary: buf cnt)
  case Nil
  then show ?case by simp
next
  case (Cons x xs)
  let ?b = "buf[cnt := x]"
  from Cons.prems have lt: "cnt < unat (buf ! 1) * FRAME_SIZE + META_SIZE"
    and inb: "cnt < length buf" and le: "cnt \<le> SERIAL_PACKET" by simp_all
  from inb Cons.prems(3) have md: "(cnt + 1) mod 256 = cnt + 1"
    by (simp add: SERIAL_PACKET_def)
  have step: "upload_loop buf ov cnt (map Byte (x # xs) @ r)
      = upload_loop ?b ov (cnt + 1) (map Byte xs @ r)"
    using lt inb le md by (subst upload_loop.simps) simp
  have b1: "?b ! 1 = buf ! 1" using Cons.prems(1) by simp
  have ih: "upload_loop ?b ov (cnt + 1) (map Byte xs @ r) =
     upload_loop (take (cnt + 1) ?b @ xs @ drop (cnt + 1 + length xs) ?b) ov
       (cnt + 1 + length xs) r"
    using Cons.prems b1 by (intro Cons.IH) simp_all
  have tk: "take (cnt + 1) ?b = take cnt buf @ [x]"
    using inb by (simp add: take_Suc_conv_app_nth)
  have dr: "drop (cnt + 1 + length xs) ?b = drop (cnt + 1 + length xs) buf"
    by simp
  show ?case unfolding step ih tk dr by simp
qed

lemma upload_overflow:
  assumes rx: "rx d = Byte b0 # Byte b1 # map Byte body @ Byte y # Byte x # r"
    and len: "length body = 140" and big: "21 \<le> unat b1"
  shows "handleUploadRequest g d =
    (Returned, d\<lparr>rx := Byte x # r, overrun := overrun d @ [(142, y)], trace := trace d @ crlf\<rparr>)"
proof -
  let ?start = "(map (junk_localBuff g) [0..<SERIAL_PACKET])[0 := b0, 1 := b1]"
  let ?full = "take 2 ?start @ body @ drop (2 + length body) ?start"
  have s1: "?start ! 1 = b1" and sl: "length ?start = SERIAL_PACKET"
    by (simp_all add: SERIAL_PACKET_def)
  have lim: "149 \<le> unat b1 * FRAME_SIZE + META_SIZE"
    using big by (simp add: FRAME_SIZE_def META_SIZE_def)
  have fl: "length ?full = 142" and f1: "?full ! 1 = b1"
    using len by (simp_all add: SERIAL_PACKET_def nth_append)
  have a: "upload_loop ?start [] 2 (map Byte body @ Byte y # Byte x # r)
      = upload_loop ?full [] (2 + length body) (Byte y # Byte x # r)"
    using len lim s1 sl by (intro upload_loop_store) (simp_all add: SERIAL_PACKET_def)
  have b: "upload_loop ?full [] 142 (Byte y # Byte x # r)
      = upload_loop ?full [(142, y)] 143 (Byte x # r)"
    using fl f1 lim by (subst upload_loop.simps) (simp add: SERIAL_PACKET_def)
  have c: "upload_loop ?full [(142, y)] 143 (Byte x # r)
      = (Overflow, ?full, [(142, y)], 143, Byte x # r)"
    using fl f1 lim by (subst upload_loop.simps) (simp add: SERIAL_PACKET_def)
  have "upload_loop ?start [] META_SIZE (map Byte body @ Byte y # Byte x # r)
      = (Overflow, ?full, [(142, y)], 143, Byte x # r)"
    using a b c len by (simp add: META_SIZE_def)
  then show ?thesis
    using rx by (simp add: handleUploadRequest_def emit_def println_def print_def)
qed

text \<open>
  C2, at an input where the code departs from it. The header declares 21 frames, 149
  bytes in all. The loop stores 140 bytes at the indices 2 to 141, then, because its guard
  is \<^verbatim>\<open>buffCount <= SERIAL_PACKET\<close>, the next byte (187) at index 142, one past the
  end of the 142-byte array. Only with \<open>buffCount = 143\<close> does it print the empty line
  and return, leaving the byte that was waiting (204) on the line. Nothing is written to
  the EEPROM.
\<close>

theorem upload_overflow_writes_past_buffer:
  "handleUploadRequest zero_stack
     ((power_on zero_store)
        \<lparr>rx := Byte 0 # Byte 21 # map Byte (replicate 140 170) @ [Byte 187, Byte 204]\<rparr>)
   = (Returned, (power_on zero_store)
        \<lparr>rx := [Byte 204], overrun := [(142, 187)], trace := crlf\<rparr>)"
  using upload_overflow [of "(power_on zero_store)
        \<lparr>rx := Byte 0 # Byte 21 # map Byte (replicate 140 170) @ [Byte 187, Byte 204]\<rparr>"
      0 21 "replicate 140 170" 187 204 "[]" zero_stack]
  by (simp add: power_on_def)

subsection \<open>Downloads\<close>

lemma acks_add: "acks (m + n) r = (case acks m r of None \<Rightarrow> None | Some r1 \<Rightarrow> acks n r1)"
  by (induction m arbitrary: r) (auto split: prod.splits bool.splits)

lemma waitForAck_True:
  "waitForAck_loop 1000 0 (rx d) = (True, r) \<Longrightarrow>
   waitForAck 1000 d = (True, d\<lparr>rx := r, trace := trace d @ [Ack True]\<rparr>)"
  by (simp add: waitForAck_def emit_def)

lemma acks3:
  "acks 3 r = (case waitForAck_loop 1000 0 r of (False, r1) \<Rightarrow> None | (True, r1) \<Rightarrow>
      (case waitForAck_loop 1000 0 r1 of (False, r2) \<Rightarrow> None | (True, r2) \<Rightarrow>
      (case waitForAck_loop 1000 0 r2 of (False, r3) \<Rightarrow> None | (True, r3) \<Rightarrow> Some r3)))"
  by (simp add: numeral_3_eq_3 split: prod.splits bool.splits)

lemma download_slot_ok:
  assumes "unat (frameCount (EEPROM_get (i * sizeof_animation) (EEPROM d))) \<le> MAX_FRAMES"
    and "acks 3 (rx d) = Some r"
  shows "download_slot g i d =
     (Returned, d\<lparr>rx := r, trace := trace d @ triple i (EEPROM_get (i * sizeof_animation) (EEPROM d))\<rparr>)"
proof -
  let ?a = "EEPROM_get (i * sizeof_animation) (EEPROM d)"
  from assms(2) obtain r1 r2 where w1: "waitForAck_loop 1000 0 (rx d) = (True, r1)"
    and w2: "waitForAck_loop 1000 0 r1 = (True, r2)"
    and w3: "waitForAck_loop 1000 0 r2 = (True, r)"
    by (auto simp: acks3 split: prod.splits bool.splits)
  have fb: "frame_bytes (junk_frameBuff g) ?a = Some (wire_payload ?a)"
    using assms(1) by (rule frame_bytes_wire)
  have len: "length (wire_payload ?a) = unat (frameCount ?a) * FRAME_SIZE"
    unfolding wire_payload_def length_wire_frames by (simp add: keyframes_def FRAME_SIZE_def)
  let ?d1 = "d\<lparr>rx := r1, trace := trace d @ [Ack True]\<rparr>"
  let ?d2 = "?d1\<lparr>rx := r2, trace := trace d @ [Ack True, Sent (of_nat i), Sent (frameCount ?a), Ack True]\<rparr>"
  have a1: "waitForAck 1000 d = (True, ?d1)" using w1 by (rule waitForAck_True)
  have a2: "waitForAck 1000 (emit [Sent (of_nat i), Sent (frameCount ?a)] ?d1) = (True, ?d2)"
    using waitForAck_True [of "emit [Sent (of_nat i), Sent (frameCount ?a)] ?d1" r2] w2
    by (simp add: emit_def)
  have a3: "waitForAck 1000 (emit (map Sent (wire_payload ?a)) ?d2)
      = (True, d\<lparr>rx := r, trace := trace d @ triple i ?a\<rparr>)"
    using waitForAck_True [of "emit (map Sent (wire_payload ?a)) ?d2" r] w3
    by (simp add: emit_def triple_def)
  show ?thesis
    unfolding download_slot_def Let_def a1 fb
    using a2 a3 len by simp
qed

lemma download_slot_fail:
  assumes "unat (frameCount (EEPROM_get (i * sizeof_animation) (EEPROM d))) \<le> MAX_FRAMES"
    and "acks 3 (rx d) = None"
  shows "fst (download_slot g i d) = Restart \<and> EEPROM (snd (download_slot g i d)) = EEPROM d"
proof -
  let ?a = "EEPROM_get (i * sizeof_animation) (EEPROM d)"
  have fb: "frame_bytes (junk_frameBuff g) ?a = Some (wire_payload ?a)"
    using assms(1) by (rule frame_bytes_wire)
  have w: "waitForAck 1000 x = (ok, y) \<Longrightarrow> EEPROM y = EEPROM x \<and> (ok \<longleftrightarrow> fst (waitForAck_loop 1000 0 (rx x)))
     \<and> rx y = snd (waitForAck_loop 1000 0 (rx x))" for x y ok
    by (auto simp: waitForAck_def emit_def split: prod.splits bool.splits)
  show ?thesis
    using assms(2) fb unfolding download_slot_def Let_def acks3
    by (auto split: prod.splits bool.splits dest!: w simp: emit_def)
qed

lemma download_loop_ok:
  assumes "i \<le> 6"
    and "\<forall>j<6. unat (frameCount (EEPROM_get (j * sizeof_animation) (EEPROM d))) \<le> MAX_FRAMES"
    and "acks (3 * (6 - i)) (rx d) = Some r"
  shows "download_loop g i d =
     (Returned, d\<lparr>rx := r,
        trace := trace d @ concat (map (\<lambda>j. triple j (EEPROM_get (j * sizeof_animation) (EEPROM d))) [i..<6])\<rparr>)"
  using assms
proof (induction "6 - i" arbitrary: i d)
  case 0
  then have "i = 6" by simp
  with "0.prems" show ?case by (subst download_loop.simps) simp
next
  case (Suc n)
  from Suc.hyps(2) have lt: "i < 6" by simp
  then have split: "3 * (6 - i) = 3 + 3 * (6 - (i + 1))" by simp
  from Suc.prems(3) obtain r1 where r1: "acks 3 (rx d) = Some r1"
    and rest: "acks (3 * (6 - (i + 1))) r1 = Some r"
    unfolding split acks_add by (auto split: option.splits)
  let ?d1 = "d\<lparr>rx := r1, trace := trace d @ triple i (EEPROM_get (i * sizeof_animation) (EEPROM d))\<rparr>"
  have slot: "download_slot g i d = (Returned, ?d1)"
    using Suc.prems(2) lt r1 by (intro download_slot_ok) simp_all
  have step: "download_loop g i d = download_loop g (i + 1) ?d1"
    using lt slot by (subst download_loop.simps) simp
  have "n = 6 - (i + 1)" using Suc.hyps(2) by simp
  then have ih: "download_loop g (i + 1) ?d1 =
     (Returned, ?d1\<lparr>rx := r,
        trace := trace ?d1 @
          concat (map (\<lambda>j. triple j (EEPROM_get (j * sizeof_animation) (EEPROM ?d1))) [i + 1..<6])\<rparr>)"
    using lt Suc.prems(2) rest by (intro Suc.hyps(1)) simp_all
  have ups: "[i..<6] = i # [i + 1..<6]" using lt by (simp add: upt_conv_Cons)
  show ?case unfolding step ih ups by simp
qed

lemma download_loop_fail:
  assumes "i \<le> 6"
    and "\<forall>j<6. unat (frameCount (EEPROM_get (j * sizeof_animation) (EEPROM d))) \<le> MAX_FRAMES"
    and "acks (3 * (6 - i)) (rx d) = None"
  shows "fst (download_loop g i d) = Restart \<and> EEPROM (snd (download_loop g i d)) = EEPROM d"
  using assms
proof (induction "6 - i" arbitrary: i d)
  case 0
  then show ?case by simp
next
  case (Suc n)
  from Suc.hyps(2) have lt: "i < 6" by simp
  then have split: "3 * (6 - i) = 3 + 3 * (6 - (i + 1))" by simp
  show ?case
  proof (cases "acks 3 (rx d)")
    case None
    have "fst (download_slot g i d) = Restart \<and> EEPROM (snd (download_slot g i d)) = EEPROM d"
      using Suc.prems(2) lt None by (intro download_slot_fail) simp_all
    then show ?thesis
      using lt by (subst (1 2) download_loop.simps) (auto split: prod.splits outcome.splits)
  next
    case (Some r1)
    with Suc.prems(3) have rest: "acks (3 * (6 - (i + 1))) r1 = None"
      unfolding split acks_add by simp
    let ?d1 = "d\<lparr>rx := r1, trace := trace d @ triple i (EEPROM_get (i * sizeof_animation) (EEPROM d))\<rparr>"
    have slot: "download_slot g i d = (Returned, ?d1)"
      using Suc.prems(2) lt Some by (intro download_slot_ok) simp_all
    have step: "download_loop g i d = download_loop g (i + 1) ?d1"
      using lt slot by (subst download_loop.simps) simp
    have "n = 6 - (i + 1)" using Suc.hyps(2) by simp
    then have "fst (download_loop g (i + 1) ?d1) = Restart \<and>
        EEPROM (snd (download_loop g (i + 1) ?d1)) = EEPROM ?d1"
      using lt Suc.prems(2) rest by (intro Suc.hyps(1)) simp_all
    then show ?thesis unfolding step by simp
  qed
qed

text \<open>
  C7. A command whose code starts with \<^verbatim>\<open>'d'\<close>, against a store whose six slots hold
  valid records. If the eighteen waits all get \<^verbatim>\<open>0xff\<close> in time, the device returns
  after having produced, for the slots 0 to 5 in this order, one triple each: a wait, the
  bytes \<open>i\<close> and \<open>frameCount\<close>, a wait, the wire payload of the stored record
  (\<open>frameCount * 7\<close> bytes), a wait; nothing else follows the echo of the command. If
  one of the waits fails, the exchange ends in \<^verbatim>\<open>resetFunc()\<close>. The EEPROM is not
  written.
\<close>

theorem download_all_slots:
  assumes "readStringUntil 45 0 (rx d) = (100 # code, r)"
    and "\<forall>i<6. valid_animation (EEPROM_get (i * sizeof_animation) (EEPROM d))"
  shows "(\<forall>r'. acks 18 r = Some r' \<longrightarrow>
       handleSerial g d =
         (Returned, d\<lparr>rx := r',
            trace := trace d @ print ''ready_'' @ map Sent (100 # code) @ crlf @
              concat (map (\<lambda>i. triple i (EEPROM_get (i * sizeof_animation) (EEPROM d))) [0..<6])\<rparr>)) \<and>
     (acks 18 r = None \<longrightarrow>
       fst (handleSerial g d) = Restart \<and> EEPROM (snd (handleSerial g d)) = EEPROM d) \<and>
     (\<forall>i<6. length (wire_payload (EEPROM_get (i * sizeof_animation) (EEPROM d))) =
        unat (frameCount (EEPROM_get (i * sizeof_animation) (EEPROM d))) * FRAME_SIZE)"
proof -
  let ?d1 = "emit (print ''ready_'' @ map Sent (100 # code) @ crlf) (d\<lparr>rx := r\<rparr>)"
  have disp: "handleSerial g d = download_loop g 0 ?d1"
    using assms(1) by (simp add: handleSerial_def handleDownloadRequest_def Let_def)
  have ok: "\<forall>j<6. unat (frameCount (EEPROM_get (j * sizeof_animation) (EEPROM ?d1))) \<le> MAX_FRAMES"
    using assms(2) by (simp add: valid_animation_def emit_def)
  have len: "length (wire_payload a) = unat (frameCount a) * FRAME_SIZE" for a
    unfolding wire_payload_def length_wire_frames by (simp add: keyframes_def FRAME_SIZE_def)
  have "handleSerial g d =
         (Returned, d\<lparr>rx := r',
            trace := trace d @ print ''ready_'' @ map Sent (100 # code) @ crlf @
              concat (map (\<lambda>i. triple i (EEPROM_get (i * sizeof_animation) (EEPROM d))) [0..<6])\<rparr>)"
    if "acks 18 r = Some r'" for r'
    using download_loop_ok [of 0 ?d1 r' g, OF _ ok] that unfolding disp
    by (simp add: emit_def)
  moreover have "fst (handleSerial g d) = Restart \<and> EEPROM (snd (handleSerial g d)) = EEPROM d"
    if "acks 18 r = None"
    using download_loop_fail [of 0 ?d1 g, OF _ ok] that unfolding disp
    by (simp add: emit_def)
  ultimately show ?thesis using len by blast
qed

text \<open>
  A store whose six slots hold one red keyframe at 100 ms each. Eighteen bytes
  \<^verbatim>\<open>0xff\<close> carry the download through; a byte 0 at the second wait ends it in the
  restart.
\<close>

theorem download_all_slots_witness:
  "handleSerial zero_stack
     ((power_on (write_slots (\<lambda>s. \<lparr>frameCount = 1,
          frames = (\<lambda>i. \<lparr>red = 255, green = 0, blue = 0, time = 100\<rparr>), duration = 100\<rparr>)
          6 zero_store))
        \<lparr>rx := Byte 100 # Byte 45 # replicate 18 (Byte 255)\<rparr>)
   = (Returned,
      (power_on (write_slots (\<lambda>s. \<lparr>frameCount = 1,
          frames = (\<lambda>i. \<lparr>red = 255, green = 0, blue = 0, time = 100\<rparr>), duration = 100\<rparr>)
          6 zero_store))
        \<lparr>rx := [],
         trace := print ''ready_d'' @ crlf @
           concat (map (\<lambda>i. [Ack True, Sent (of_nat i), Sent 1, Ack True, Sent 255, Sent 0, Sent 0,
                               Sent 0, Sent 0, Sent 0, Sent 100, Ack True]) [0..<6])\<rparr>) \<and>
   fst (handleSerial zero_stack
     ((power_on (write_slots (\<lambda>s. \<lparr>frameCount = 1,
          frames = (\<lambda>i. \<lparr>red = 255, green = 0, blue = 0, time = 100\<rparr>), duration = 100\<rparr>)
          6 zero_store))
        \<lparr>rx := [Byte 100, Byte 45, Byte 255, Byte 0]\<rparr>)) = Restart"
proof -
  let ?a = "\<lparr>frameCount = 1, frames = (\<lambda>i. \<lparr>red = 255, green = 0, blue = 0, time = 100\<rparr>),
      duration = 100 :: u32\<rparr>"
  let ?e = "write_slots (\<lambda>s. ?a) 6 zero_store"
  let ?d = "\<lambda>r. (power_on ?e)\<lparr>rx := Byte 100 # Byte 45 # r\<rparr>"
  have slot: "EEPROM_get (i * sizeof_animation) ?e = in_memory ?a" if "i < 6" for i
    using that by (rule write_slots_get)
  have cmd: "readStringUntil 45 0 (rx (?d r)) = ([100], r)" for r by simp
  have val: "\<forall>i<6. valid_animation (EEPROM_get (i * sizeof_animation) (EEPROM (?d r)))" for r
    using slot by (simp add: power_on_def valid_animation_def MAX_FRAMES_def in_memory_def)
  have "acks n (replicate n (Byte 255)) = Some []" for n
    by (induction n) simp_all
  then have ok: "acks 18 (replicate 18 (Byte 255)) = Some []" .
  have two: "acks (Suc (Suc n)) [Byte 255, Byte 0] = None" for n
    by simp
  have e: "(18 :: nat) = Suc (Suc 16)"
    by simp
  have bad: "acks 18 [Byte 255, Byte 0] = None"
    by (subst e) (rule two)
  have tr: "triple i (in_memory ?a) = [Ack True, Sent (of_nat i), Sent 1, Ack True, Sent 255,
      Sent 0, Sent 0, Sent 0, Sent 0, Sent 0, Sent 100, Ack True]" for i
    by (simp add: triple_def wire_payload_def keyframes_def wire_frame_def in_memory_def
        MAX_FRAMES_def)
  have trs: "map (\<lambda>i. triple i (EEPROM_get (i * sizeof_animation) ?e)) [0..<6]
      = map (\<lambda>i. [Ack True, Sent (of_nat i), Sent 1, Ack True, Sent 255,
      Sent 0, Sent 0, Sent 0, Sent 0, Sent 0, Sent 100, Ack True]) [0..<6]"
    by (rule map_cong) (simp_all add: slot tr)
  show ?thesis
    using download_all_slots [OF cmd val, of "replicate 18 (Byte 255)" zero_stack] ok
      download_all_slots [OF cmd val, of "[Byte 255, Byte 0]" zero_stack] bad
    by (simp add: power_on_def trs print_def)
qed

subsection \<open>The runtime loop and the store\<close>

lemma loop_serial_loads_slot_0:
  assumes "pending (rx d @ arrive)"
    and "handleSerial g (d\<lparr>rx := rx d @ arrive\<rparr>) = (Returned, d1)"
  shows "loop g p arrive d =
     (Returned, d1\<lparr>currentAnim := EEPROM_get 0 (EEPROM d1),
        animator := Some (EEPROM_get 0 (EEPROM d1))\<rparr>)"
  using assms
  by (simp add: loop_def Let_def EEPROM_Load_def updateAnimation_def)

lemma loop_buttons_load_selected:
  assumes "\<not> pending (rx d @ arrive)" and "outputMode (buttonFSM p (btn d)) \<noteq> lastMode d"
  shows "animator (snd (loop g p arrive d)) =
     Some (EEPROM_get (unat (ucast (outputMode (buttonFSM p (btn d))) :: u8) * sizeof_animation)
       (EEPROM d))"
  using assms
  by (simp add: loop_def Let_def EEPROM_Load_def updateAnimation_def)

lemma loop_idle_ends_silence:
  assumes "\<not> pending (rx d @ arrive)"
  shows "rx (snd (loop g p arrive d)) = skip_quiet (rx d @ arrive)"
  using assms
  by (simp add: loop_def Let_def EEPROM_Load_def updateAnimation_def)

lemma loop_answers_after_silence:
  "trace (snd (run zero_stack
      [(\<lparr>up = False, down = False, now = 10\<rparr>, []),
       (\<lparr>up = False, down = False, now = 20\<rparr>, [])]
      ((power_on demo_store)\<lparr>rx := [Quiet 5, Byte 120, Byte 45]\<rparr>)))
   = print ''ready_x'' @ crlf @ crlf"
  by (simp add: loop_def Let_def EEPROM_Load_def updateAnimation_def power_on_def emit_def
      fsm_init_def handleSerial_def println_def print_def crlf_def)

lemma restart_starts_over:
  "EEPROM (setup_fn (reset d)) = EEPROM d \<and> btn (setup_fn (reset d)) = fsm_init \<and>
   lastMode (setup_fn (reset d)) = 0 \<and>
   animator (setup_fn (reset d)) = Some (EEPROM_get 0 (EEPROM d)) \<and>
   currentAnim (setup_fn (reset d)) = EEPROM_get 0 (EEPROM d)"
  by (simp add: setup_fn_def reset_def EEPROM_Load_def updateAnimation_def emit_def)

text \<open>
  C1, at an input where the code departs from it. After \<^verbatim>\<open>setup\<close>, the down button
  is held for 201 ms: the selector goes from slot 0 to slot 5 and \<^verbatim>\<open>loop\<close> hands the
  record of slot 5 to the animator. In the next call of \<^verbatim>\<open>loop\<close> the line holds the
  command \<^verbatim>\<open>"x-"\<close>, which \<^verbatim>\<open>handleSerial\<close> answers and drops. The reload that
  follows uses the local \<^verbatim>\<open>currentMode\<close>, which is 0 in this branch: the animator
  receives the record of slot 0, while the selector still says 5.
\<close>

theorem loop_serial_reloads_slot_0:
  "outputMode (btn (snd (run zero_stack
      [(\<lparr>up = False, down = True, now = 1000\<rparr>, []),
       (\<lparr>up = False, down = True, now = 1201\<rparr>, [])]
      (setup_fn (power_on demo_store))))) = 5 \<and>
   animator (snd (run zero_stack
      [(\<lparr>up = False, down = True, now = 1000\<rparr>, []),
       (\<lparr>up = False, down = True, now = 1201\<rparr>, [])]
      (setup_fn (power_on demo_store)))) = Some (EEPROM_get (5 * sizeof_animation) demo_store) \<and>
   outputMode (btn (snd (run zero_stack
      [(\<lparr>up = False, down = True, now = 1000\<rparr>, []),
       (\<lparr>up = False, down = True, now = 1201\<rparr>, []),
       (\<lparr>up = False, down = False, now = 1202\<rparr>, [Byte 120, Byte 45])]
      (setup_fn (power_on demo_store))))) = 5 \<and>
   animator (snd (run zero_stack
      [(\<lparr>up = False, down = True, now = 1000\<rparr>, []),
       (\<lparr>up = False, down = True, now = 1201\<rparr>, []),
       (\<lparr>up = False, down = False, now = 1202\<rparr>, [Byte 120, Byte 45])]
      (setup_fn (power_on demo_store)))) = Some (EEPROM_get 0 demo_store) \<and>
   frameCount (EEPROM_get 0 demo_store) = 1 \<and>
   frameCount (EEPROM_get (5 * sizeof_animation) demo_store) = 6"
proof -
  have g0: "EEPROM_get 0 demo_store = demo_record 0"
    using demo_store_get [of 0] by simp
  have g5: "EEPROM_get (5 * sizeof_animation) demo_store = demo_record 5"
    using demo_store_get [of 5] by simp
  show ?thesis
    unfolding g0 g5
    by (simp add: loop_def Let_def EEPROM_Load_def updateAnimation_def g0 g5
      setup_fn_def power_on_def emit_def fsm_init_def BTN_TIME_def mode_down_def SLOT_COUNT_def
      handleSerial_def println_def print_def crlf_def demo_record_def)
qed

lemma to_bytes_duration: "to_bytes a ! 164 = ucast (duration a)"
  by (simp add: to_bytes_def nth_append length_frames_bytes MAX_FRAMES_def le32_def)

lemma zero_frames_bytes:
  "x < length (concat (map (\<lambda>i. frame_to_bytes zero_frame) xs)) \<Longrightarrow>
   concat (map (\<lambda>i. frame_to_bytes zero_frame) xs) ! x = 0"
proof (induction xs arbitrary: x)
  case Nil
  then show ?case by simp
next
  case (Cons y ys)
  have z: "k < 8 \<Longrightarrow> frame_to_bytes zero_frame ! k = 0" for k
    by (simp add: frame_to_bytes_def zero_frame_def le32_def nth_Cons' )
  show ?case
  proof (cases "x < 8")
    case True
    then show ?thesis by (simp add: nth_append length_frame_to_bytes z)
  next
    case False
    with Cons.prems have "x - 8 < length (concat (map (\<lambda>i. frame_to_bytes zero_frame) ys))"
      by (simp add: length_frame_to_bytes)
    then have "concat (map (\<lambda>i. frame_to_bytes zero_frame) ys) ! (x - 8) = 0"
      by (rule Cons.IH)
    with False show ?thesis by (simp add: nth_append length_frame_to_bytes)
  qed
qed

lemma nth4: "(w # a # b # c # ys) ! (4 + k) = ys ! k"
proof -
  have "4 + k = Suc (Suc (Suc (Suc k)))" by simp
  then show ?thesis by (simp only: nth_Cons_Suc)
qed

lemma demo_record_bytes:
  assumes "0 < x" and "x < sizeof_animation"
  shows "to_bytes (demo_record s) ! x = 0"
proof -
  let ?fs = "concat (map (\<lambda>i. frame_to_bytes zero_frame) [0..<MAX_FRAMES])"
  have len: "length ?fs = 160"
    by (simp add: length_frames_bytes MAX_FRAMES_def)
  have tb: "to_bytes (demo_record s) = (of_nat s + 1) # 0 # 0 # 0 # (?fs @ [0, 0, 0, 0])"
    by (simp add: to_bytes_def demo_record_def le32_def)
  show ?thesis
  proof (cases "x < 4")
    case True
    with assms(1) show ?thesis unfolding tb by (simp add: nth_Cons')
  next
    case False
    then obtain k where k: "x = 4 + k"
      using le_Suc_ex [of 4 x] by auto
    have "(?fs @ [0, 0, 0, 0 :: u8]) ! k = 0"
    proof (cases "k < 160")
      case True
      then have "?fs ! k = 0" using len by (intro zero_frames_bytes) simp
      with True len show ?thesis by (simp add: nth_append)
    next
      case False
      with k assms(2) len show ?thesis
        by (simp add: nth_append sizeof_animation_def nth_Cons')
    qed
    then show ?thesis unfolding tb k nth4 .
  qed
qed

text \<open>
  C4 as stated fails, in its offset, in its size and in its layout. What
  \<^verbatim>\<open>EEPROM_Load(1)\<close> reads is not what lies at byte offset \<open>1 * 142\<close>: with
  \<open>demo_store\<close> the load of slot 1 reads at offset 168. A write to slot 0 reaches byte
  164, beyond a region of 142 bytes. And the same upload buffer \<^verbatim>\<open>[1, 0]\<close>, the same
  bytes on the wire, leaves a different slot 1 when the stack held a different total
  time: the region holds the object, not the wire encoding.
\<close>

theorem slot_offset_counterexample:
  "currentAnim (EEPROM_Load 1 (power_on demo_store)) \<noteq> EEPROM_get (1 * 142) demo_store \<and>
   the (saveAnimationFromSerial (zero_animation\<lparr>duration := 7\<rparr>) [0, 0] zero_store) 164
     \<noteq> zero_store 164 \<and>
   duration (currentAnim (EEPROM_Load 1 ((power_on zero_store)
      \<lparr>EEPROM := the (saveAnimationFromSerial zero_animation [1, 0] zero_store)\<rparr>))) \<noteq>
   duration (currentAnim (EEPROM_Load 1 ((power_on zero_store)
      \<lparr>EEPROM := the (saveAnimationFromSerial (zero_animation\<lparr>duration := 7\<rparr>) [1, 0]
                         zero_store)\<rparr>)))"
proof -
  have l1: "currentAnim (EEPROM_Load 1 (power_on demo_store)) = demo_record 1"
    using demo_store_get [of 1] by (simp add: EEPROM_Load_def power_on_def)
  have "demo_store (0 * sizeof_animation + 142) = to_bytes (demo_record 0) ! 142"
    unfolding demo_store_def by (rule write_slots_byte) (simp_all add: sizeof_animation_def)
  then have "demo_store 142 = 0"
    by (simp add: demo_record_bytes sizeof_animation_def)
  then have "frameCount (EEPROM_get (1 * 142) demo_store) = 0"
    by (simp add: EEPROM_get_def from_bytes_def sizeof_animation_def upt_conv_Cons)
  moreover have "frameCount (currentAnim (EEPROM_Load 1 (power_on demo_store))) = 2"
    unfolding l1 by (simp add: demo_record_def)
  ultimately have a: "currentAnim (EEPROM_Load 1 (power_on demo_store))
      \<noteq> EEPROM_get (1 * 142) demo_store"
    by auto
  have p: "parse_animation a0 [s, 0] = Some (a0\<lparr>frameCount := 0\<rparr>)" for a0 s
    by (simp add: parse_animation_def save_loop.simps)
  have sv: "the (saveAnimationFromSerial a0 [s, 0] e)
      = EEPROM_put (unat s * sizeof_animation) (a0\<lparr>frameCount := 0\<rparr>) e" for a0 s e
    by (simp add: saveAnimationFromSerial_def p)
  have b: "the (saveAnimationFromSerial (zero_animation\<lparr>duration := 7\<rparr>) [0, 0] zero_store) 164
     \<noteq> zero_store 164"
    unfolding sv
    by (simp add: EEPROM_put_def length_to_bytes sizeof_animation_def to_bytes_duration
        zero_store_def)
  have ld: "duration (currentAnim (EEPROM_Load 1 ((power_on zero_store)
      \<lparr>EEPROM := the (saveAnimationFromSerial a0 [1, 0] zero_store)\<rparr>))) = duration a0" for a0
    unfolding sv using EEPROM_get_put_same [of "1 * sizeof_animation" "a0\<lparr>frameCount := 0\<rparr>"]
    by (simp add: EEPROM_Load_def in_memory_simps)
  show ?thesis
    using a b unfolding ld by (simp add: zero_animation_def)
qed

text \<open>
  C4, amended. For a slot \<open>s\<close> from 0 to 5 named by byte 0 of the buffer, and the object
  \<open>a\<close> parsed from it: \<^verbatim>\<open>saveAnimationFromSerial\<close> writes the 168 bytes of the
  object \<open>a\<close>, frame count, keyframe array and total time, at the addresses from
  \<open>s * 168\<close> to \<open>s * 168 + 167\<close>, inside the first \<open>6 * 168\<close> bytes, and changes no
  byte outside. \<^verbatim>\<open>EEPROM_Load\<close> of a slot \<open>t\<close> from 0 to 5 depends on the 168 bytes
  from \<open>t * 168\<close> on and on no others; after the write it yields \<open>a\<close> for \<open>t = s\<close>
  and what it yielded before for every other slot.
\<close>

theorem slot_region:
  assumes "parse_animation a0 buff = Some a" and "unat (buff ! 0) \<le> 5"
  shows "\<exists>e'. saveAnimationFromSerial a0 buff e = Some e' \<and>
     unat (buff ! 0) * 168 + 168 \<le> 6 * 168 \<and>
     length (to_bytes a) = 168 \<and>
     map e' [unat (buff ! 0) * 168..<unat (buff ! 0) * 168 + 168] = to_bytes a \<and>
     (\<forall>x. x < unat (buff ! 0) * 168 \<or> unat (buff ! 0) * 168 + 168 \<le> x \<longrightarrow> e' x = e x) \<and>
     (\<forall>(t :: u8) d. unat t \<le> 5 \<longrightarrow>
        currentAnim (EEPROM_Load t (d\<lparr>EEPROM := e'\<rparr>)) =
          (if t = buff ! 0 then in_memory a
           else currentAnim (EEPROM_Load t (d\<lparr>EEPROM := e\<rparr>)))) \<and>
     (\<forall>(t :: u8) d e1 e2. unat t \<le> 5 \<and>
        (\<forall>x. unat t * 168 \<le> x \<and> x < unat t * 168 + 168 \<longrightarrow> e1 x = e2 x) \<longrightarrow>
        currentAnim (EEPROM_Load t (d\<lparr>EEPROM := e1\<rparr>)) =
        currentAnim (EEPROM_Load t (d\<lparr>EEPROM := e2\<rparr>)))"
proof -
  let ?s = "unat (buff ! 0)"
  let ?e = "EEPROM_put (?s * sizeof_animation) a e"
  have sz: "sizeof_animation = 168" by (simp add: sizeof_animation_def)
  have sv: "saveAnimationFromSerial a0 buff e = Some ?e"
    using assms(1) by (simp add: saveAnimationFromSerial_def)
  have inside: "?s * 168 + 168 \<le> 6 * 168" using assms(2) by simp
  have len: "length (to_bytes a) = 168" using length_to_bytes [of a] sz by simp
  have region: "map ?e [?s * 168..<?s * 168 + 168] = to_bytes a"
    using EEPROM_put_region [of "?s * sizeof_animation" a e] sz by simp
  have outside: "\<forall>x. x < ?s * 168 \<or> ?s * 168 + 168 \<le> x \<longrightarrow> ?e x = e x"
    using EEPROM_put_outside [of _ "?s * sizeof_animation" a e] sz by simp
  have load: "currentAnim (EEPROM_Load t (d\<lparr>EEPROM := ?e\<rparr>)) =
          (if t = buff ! 0 then in_memory a
           else currentAnim (EEPROM_Load t (d\<lparr>EEPROM := e\<rparr>)))" for t :: u8 and d :: device
    by (simp add: EEPROM_Load_def EEPROM_get_put_slot word_unat_eq_iff)
  have reads: "currentAnim (EEPROM_Load t (d\<lparr>EEPROM := e1\<rparr>)) =
        currentAnim (EEPROM_Load t (d\<lparr>EEPROM := e2\<rparr>))"
    if "\<forall>x. unat t * 168 \<le> x \<and> x < unat t * 168 + 168 \<longrightarrow> e1 x = e2 x"
    for t :: u8 and d :: device and e1 e2
  proof -
    have "EEPROM_get (unat t * sizeof_animation) e1 = EEPROM_get (unat t * sizeof_animation) e2"
      using that sz by (intro EEPROM_get_cong) simp
    then show ?thesis by (simp add: EEPROM_Load_def)
  qed
  show ?thesis
    using sv inside len region outside load reads by blast
qed

text \<open>
  Into \<open>demo_store\<close>, an upload buffer for slot 2 with one keyframe: slot 2 goes from
  three frames to one, slot 1 keeps its two.
\<close>

theorem slot_region_witness:
  "frameCount (currentAnim (EEPROM_Load 2 (power_on demo_store))) = 3 \<and>
   frameCount (currentAnim (EEPROM_Load 2 ((power_on demo_store)
      \<lparr>EEPROM := the (saveAnimationFromSerial zero_animation [2, 1, 255, 0, 0, 0, 0, 0, 100]
                         demo_store)\<rparr>))) = 1 \<and>
   frameCount (currentAnim (EEPROM_Load 1 ((power_on demo_store)
      \<lparr>EEPROM := the (saveAnimationFromSerial zero_animation [2, 1, 255, 0, 0, 0, 0, 0, 100]
                         demo_store)\<rparr>))) = 2"
proof -
  let ?a = "zero_animation\<lparr>frameCount := 1,
      frames := (frames zero_animation)(0 := \<lparr>red = 255, green = 0, blue = 0, time = 100\<rparr>),
      duration := 100\<rparr>"
  let ?buff = "[2, 1, 255, 0, 0, 0, 0, 0, 100] :: u8 list"
  have pt: "parse_time 0 0 0 100 = 100" by (simp add: parse_time_def)
  have p: "parse_animation zero_animation ?buff = Some ?a"
    by (simp add: parse_animation_def save_loop.simps save_frame_def FRAME_SIZE_def
        MAX_FRAMES_def Let_def pt)
  have s: "unat (?buff ! 0) \<le> 5" by simp
  from slot_region [OF p s, of demo_store] obtain e' where
    e': "saveAnimationFromSerial zero_animation ?buff demo_store = Some e'"
    "\<forall>(t :: u8) d. unat t \<le> 5 \<longrightarrow>
        currentAnim (EEPROM_Load t (d\<lparr>EEPROM := e'\<rparr>)) =
          (if t = ?buff ! 0 then in_memory ?a
           else currentAnim (EEPROM_Load t (d\<lparr>EEPROM := demo_store\<rparr>)))"
    by blast
  have l2: "currentAnim (EEPROM_Load 2 ((power_on demo_store)\<lparr>EEPROM := e'\<rparr>)) = in_memory ?a"
    using e'(2) [rule_format, of 2 "power_on demo_store"] by simp
  have l1: "currentAnim (EEPROM_Load 1 ((power_on demo_store)\<lparr>EEPROM := e'\<rparr>))
      = currentAnim (EEPROM_Load 1 ((power_on demo_store)\<lparr>EEPROM := demo_store\<rparr>))"
    using e'(2) [rule_format, of 1 "power_on demo_store"] by simp
  have d1: "currentAnim (EEPROM_Load 1 ((power_on demo_store)\<lparr>EEPROM := demo_store\<rparr>))
      = demo_record 1"
    using demo_store_get [of 1] by (simp add: EEPROM_Load_def)
  have d2: "currentAnim (EEPROM_Load 2 (power_on demo_store)) = demo_record 2"
    using demo_store_get [of 2] by (simp add: EEPROM_Load_def power_on_def)
  show ?thesis
    unfolding e'(1) option.sel l2 l1 d1 d2
    by (simp add: in_memory_simps demo_record_def)
qed

end
